theory Spec2Isabelle
  imports Complex_Main "HOL-Library.Word"
begin

section \<open>JavaScript values used by the off-chain services\<close>

text \<open>
  A JavaScript \<open>number\<close>: a finite value, the two infinities or NaN. Finite values are
  carried as reals; the rounding of IEEE arithmetic is not modelled, and \<open>-0\<close> is \<open>0\<close>.
\<close>

datatype jsnumber = Fin real | PosInf | NegInf | NaN

text \<open>What \<open>response.json()\<close> can produce.\<close>

datatype json =
    JNull
  | JBool bool
  | JNum jsnumber
  | JStr string
  | JArr "json list"
  | JObj "(string \<times> json) list"

text \<open>
  Property access \<open>data.c\<close>: a \<open>TypeError\<close> on \<open>null\<close> (the result \<open>None\<close>), the member
  of an object, and \<open>undefined\<close> (\<open>Some None\<close>) where there is none. The primitives and
  arrays have no member of that name. An object lists its members in the order of the
  text; of a key given twice \<open>JSON.parse\<close> keeps the last.
\<close>

fun get_c :: "json \<Rightarrow> json option option" where
  "get_c JNull = None"
| "get_c (JObj kvs) = Some (map_of (rev kvs) ''c'')"
| "get_c _ = Some None"

text \<open>ToBoolean, on a value that may be \<open>undefined\<close> (\<open>None\<close>).\<close>

fun truthy :: "json option \<Rightarrow> bool" where
  "truthy None = False"
| "truthy (Some JNull) = False"
| "truthy (Some (JBool b)) = b"
| "truthy (Some (JNum (Fin r))) = (r \<noteq> 0)"
| "truthy (Some (JNum NaN)) = False"
| "truthy (Some (JNum _)) = True"
| "truthy (Some (JStr s)) = (s \<noteq> [])"
| "truthy (Some (JArr _)) = True"
| "truthy (Some (JObj _)) = True"

text \<open>\<open>v === 0\<close>: strict equality with the number zero.\<close>

fun strict_eq_zero :: "json option \<Rightarrow> bool" where
  "strict_eq_zero (Some (JNum (Fin r))) = (r = 0)"
| "strict_eq_zero _ = False"

text \<open>The decimal digits, the blanks of ASCII, and the value of a string of digits.\<close>

definition is_digit :: "char \<Rightarrow> bool" where
  "is_digit c = (let n = (of_char c :: nat) in 48 \<le> n \<and> n \<le> 57)"

definition is_blank :: "char \<Rightarrow> bool" where
  "is_blank c = (let n = (of_char c :: nat) in n = 32 \<or> (9 \<le> n \<and> n \<le> 13))"

definition digits_value :: "string \<Rightarrow> int" where
  "digits_value ds = foldl (\<lambda>acc c. acc * 10 + (int (of_char c) - 48)) 0 ds"

text \<open>\<open>String.prototype.trim\<close> on the blanks of ASCII.\<close>

definition trim :: "string \<Rightarrow> string" where
  "trim s = rev (dropWhile is_blank (rev (dropWhile is_blank s)))"

text \<open>
  \<open>Number(s)\<close> on a string: blanks around it are dropped; the empty string is \<open>0\<close>, a
  string of decimal digits is its value. The other numeric literals of ECMAScript
  (signs, fractions, exponents, other bases, \<open>Infinity\<close>) are not part of this
  repository: their conversion is the parameter \<open>coerce\<close>.
\<close>

definition string_to_number :: "(json \<Rightarrow> jsnumber) \<Rightarrow> string \<Rightarrow> jsnumber" where
  "string_to_number coerce s =
     (let t = trim s
      in if t = [] then Fin 0
         else if list_all is_digit t then Fin (real_of_int (digits_value t))
         else coerce (JStr s))"

text \<open>
  \<open>Number(v)\<close>. An empty array converts as the empty string does; the conversion of
  the other arrays and of objects is left to \<open>coerce\<close> as well.
\<close>

fun Number :: "(json \<Rightarrow> jsnumber) \<Rightarrow> json option \<Rightarrow> jsnumber" where
  "Number coerce None = NaN"
| "Number coerce (Some JNull) = Fin 0"
| "Number coerce (Some (JBool b)) = Fin (if b then 1 else 0)"
| "Number coerce (Some (JNum n)) = n"
| "Number coerce (Some (JStr s)) = string_to_number coerce s"
| "Number coerce (Some (JArr [])) = Fin 0"
| "Number coerce (Some v) = coerce v"

text \<open>
  \<open>String.prototype.toUpperCase\<close> on strings of ASCII: the letters \<open>a\<close> to \<open>z\<close> are
  mapped, every other byte is kept. The mapping of the letters beyond ASCII, which can
  change the length of a string, is not modelled; ticker symbols and Redis keys are
  ASCII.
\<close>

definition upper_char :: "char \<Rightarrow> char" where
  "upper_char c =
     (let n = (of_char c :: nat) in if 97 \<le> n \<and> n \<le> 122 then char_of (n - 32) else c)"

definition toUpperCase :: "string \<Rightarrow> string" where
  "toUpperCase s = map upper_char s"

section \<open>The ingestor: FinnhubAdapter and StockService\<close>

text \<open>\<open>NormalizedStockPrice\<close> of the shared package.\<close>

record NormalizedStockPrice =
  source :: string
  symbol :: string
  price :: jsnumber
  timestamp :: int

text \<open>
  What \<open>fetch\<close> and \<open>response.json()\<close> can do: the request fails, or a response comes
  back with its \<open>ok\<close> flag, its status text and a body that parses as JSON or does not.
\<close>

datatype http_body = Malformed | Parsed json

datatype fetch_outcome = NetworkFailure | Response bool string http_body

text \<open>
  The rejections of \<open>getLatestPrice\<close>: the two errors the adapter throws itself (with the
  text they interpolate), and those of \<open>fetch\<close>, \<open>response.json()\<close> and \<open>data.c\<close>.
\<close>

datatype fetch_error =
    FetchFailed
  | FinnhubApiError string
  | JsonSyntaxError
  | NullBodyTypeError
  | NoPriceFound string

record FinnhubAdapter =
  baseUrl :: string
  apiKey :: "string option"

definition quote_url :: "FinnhubAdapter \<Rightarrow> string \<Rightarrow> string" where
  "quote_url a ticker =
     baseUrl a @ ''/quote?symbol='' @ toUpperCase ticker @ ''&token=''
       @ (case apiKey a of None \<Rightarrow> ''undefined'' | Some k \<Rightarrow> k)"

text \<open>
  \<open>FinnhubAdapter.getLatestPrice\<close>. The network is the function \<open>fetch\<close> from the URL to
  what comes back, \<open>now\<close> is \<open>Date.now()\<close>. The adapter's fields are read only: the
  function has no state to return.
\<close>

definition getLatestPrice ::
  "(json \<Rightarrow> jsnumber) \<Rightarrow> (string \<Rightarrow> fetch_outcome) \<Rightarrow> int \<Rightarrow> FinnhubAdapter \<Rightarrow> string
     \<Rightarrow> fetch_error + NormalizedStockPrice" where
  "getLatestPrice coerce fetch now a ticker =
     (case fetch (quote_url a ticker) of
        NetworkFailure \<Rightarrow> Inl FetchFailed
      | Response ok statusText body \<Rightarrow>
          if \<not> ok then Inl (FinnhubApiError statusText)
          else (case body of
                  Malformed \<Rightarrow> Inl JsonSyntaxError
                | Parsed data \<Rightarrow>
                    (case get_c data of
                       None \<Rightarrow> Inl NullBodyTypeError
                     | Some c \<Rightarrow>
                         if \<not> truthy c \<or> strict_eq_zero c then Inl (NoPriceFound ticker)
                         else Inr \<lparr> source = ''Finnhub'', symbol = toUpperCase ticker,
                                    price = Number coerce c, timestamp = now \<rparr>)))"

record StockService =
  finnhubAdapter :: FinnhubAdapter

text \<open>\<open>StockService.getLatestPrice\<close> awaits the adapter and returns what it returns.\<close>

definition stock_getLatestPrice ::
  "(json \<Rightarrow> jsnumber) \<Rightarrow> (string \<Rightarrow> fetch_outcome) \<Rightarrow> int \<Rightarrow> StockService \<Rightarrow> string
     \<Rightarrow> fetch_error + NormalizedStockPrice" where
  "stock_getLatestPrice coerce fetch now s ticker =
     getLatestPrice coerce fetch now (finnhubAdapter s) ticker"

text \<open>
  The quote a response carries, as the adapter reads it: the member \<open>c\<close> of the parsed
  body, \<open>undefined\<close> where there is none to read.
\<close>

definition quote_of :: "fetch_outcome \<Rightarrow> json option" where
  "quote_of out =
     (case out of
        Response ok st (Parsed data) \<Rightarrow> (case get_c data of Some c \<Rightarrow> c | None \<Rightarrow> None)
      | _ \<Rightarrow> None)"

text \<open>
  The provider has no price: no \<open>c\<close> member, \<open>null\<close>, or the number zero.
\<close>

definition no_quote :: "json option \<Rightarrow> bool" where
  "no_quote c = (c = None \<or> c = Some JNull \<or> c = Some (JNum (Fin 0)))"

section \<open>The feeder: SorobanPublisher\<close>

text \<open>
  \<open>PublishParams\<close> and \<open>PublishResult\<close>. The fields \<open>price\<close>, \<open>timestamp\<close> and \<open>proof\<close> carry
  a prefix or a suffix: the ingestor's price record has the first two names, and the
  last is a keyword.
\<close>

record PublishParams =
  assetId :: string
  pp_price :: jsnumber
  pp_timestamp :: jsnumber
  commit :: string
  proof_hex :: "string option"
  proofPublicInputs :: "string option"

record PublishResult =
  txHash :: string
  success :: bool

text \<open>The oracle contract client the constructor builds once the module has loaded.\<close>

record OracleClient =
  oc_contractId :: string
  oc_rpcUrl :: string
  oc_networkPassphrase :: string

datatype js_error = RangeError | ImportError string | SyntaxError | TypeError

text \<open>
  What a call can do besides returning: write to the console, wait, and work on a
  transaction (build it, sign it, send it to the RPC server).
\<close>

datatype effect = ConsoleLog | ConsoleWarn nat | Sleep nat | BuildTx | SignTx | SubmitTx

text \<open>
  The publisher after its constructor's promise has settled: \<open>clientPromise\<close> holds the
  client or the error the import was rejected with, and \<open>client\<close> is set in the first
  case only.
\<close>

record SorobanPublisher =
  client :: "OracleClient option"
  clientPromise :: "js_error + OracleClient"
  publicKey :: string
  networkPassphrase :: string
  contractId :: string
  rpcUrl :: string
  maxRetries :: nat
  retryDelay :: nat

text \<open>\<open>String.prototype.includes\<close>.\<close>

fun str_includes :: "string \<Rightarrow> string \<Rightarrow> bool" where
  "str_includes [] n = (n = [])"
| "str_includes (x # xs) n = (take (length n) (x # xs) = n \<or> str_includes xs n)"

definition TESTNET :: string where
  "TESTNET = ''Test SDF Network ; September 2015''"

definition FUTURENET :: string where
  "FUTURENET = ''Test SDF Future Network ; October 2022''"

text \<open>
  The constructor. \<open>Keypair.fromSecret\<close> belongs to the Stellar SDK: the key pair's
  public key is given. \<open>loaded\<close> is how the promise of the client ends: with the error
  of the dynamic import or of \<open>new Client(...)\<close>, whichever throws, or with the client
  built and stored in \<open>this.client\<close>.
\<close>

definition new_SorobanPublisher ::
  "(js_error + unit) \<Rightarrow> string \<Rightarrow> string \<Rightarrow> string \<Rightarrow> SorobanPublisher" where
  "new_SorobanPublisher loaded url cid pk =
     (let np = (if str_includes url ''testnet'' then TESTNET else FUTURENET);
          c = \<lparr> oc_contractId = cid, oc_rpcUrl = url, oc_networkPassphrase = np \<rparr>
      in \<lparr> client = (case loaded of Inl e \<Rightarrow> None | Inr u \<Rightarrow> Some c),
           clientPromise = (case loaded of Inl e \<Rightarrow> Inl e | Inr u \<Rightarrow> Inr c),
           publicKey = pk, networkPassphrase = np, contractId = cid, rpcUrl = url,
           maxRetries = 3, retryDelay = 1000 \<rparr>)"

text \<open>
  \<open>retry\<close>: run \<open>fn\<close>; when it throws and retries are left, warn, wait and run it again
  with one retry less. The closure passed in depends on nothing that changes between
  the attempts, so it is the value of one run: its effects and its outcome.
\<close>

fun retry ::
  "SorobanPublisher \<Rightarrow> effect list \<times> (js_error + 'a) \<Rightarrow> nat \<Rightarrow> effect list \<times> (js_error + 'a)" where
  "retry p fn 0 = fn"
| "retry p fn (Suc n) =
     (case snd fn of
        Inr v \<Rightarrow> fn
      | Inl e \<Rightarrow>
          (let rest = retry p fn n
           in (fst fn @ [ConsoleWarn (maxRetries p - Suc n + 1), Sleep (retryDelay p)] @ fst rest,
               snd rest)))"

definition getClient :: "SorobanPublisher \<Rightarrow> js_error + OracleClient" where
  "getClient p = (case client p of Some c \<Rightarrow> Inr c | None \<Rightarrow> clientPromise p)"

text \<open>
  \<open>new Date(t * 1000).toISOString()\<close> throws a \<open>RangeError\<close> unless the time value is a
  finite number of at most 8.64e15 milliseconds in absolute value.
\<close>

fun times1000 :: "jsnumber \<Rightarrow> jsnumber" where
  "times1000 (Fin r) = Fin (r * 1000)"
| "times1000 n = n"

fun valid_time :: "jsnumber \<Rightarrow> bool" where
  "valid_time (Fin r) = (\<bar>r\<bar> \<le> 8640000000000000)"
| "valid_time _ = False"

text \<open>
  One run of the closure of \<open>publishToOracle\<close>: six lines are logged, the seventh throws
  where the timestamp is no valid date; then the commit, three lines for a proof or one
  warning without it, and the signer. The result is the mock hash.
\<close>

definition publish_attempt :: "SorobanPublisher \<Rightarrow> PublishParams \<Rightarrow> effect list \<times> (js_error + PublishResult)" where
  "publish_attempt p params =
     (if \<not> valid_time (times1000 (pp_timestamp params))
      then (replicate 6 ConsoleLog, Inl RangeError)
      else (replicate 8 ConsoleLog
              @ (case proof_hex params of
                   None \<Rightarrow> [ConsoleLog]
                 | Some prf \<Rightarrow> if prf = [] then [ConsoleLog] else replicate 3 ConsoleLog)
              @ [ConsoleLog],
            Inr \<lparr> txHash = replicate 64 (CHR ''0''), success = True \<rparr>))"

definition publishToOracle :: "SorobanPublisher \<Rightarrow> PublishParams \<Rightarrow> effect list \<times> (js_error + PublishResult)" where
  "publishToOracle p params =
     (case getClient p of
        Inl e \<Rightarrow> ([], Inl e)
      | Inr c \<Rightarrow> retry p (publish_attempt p params) (maxRetries p))"

definition is_tx_effect :: "effect \<Rightarrow> bool" where
  "is_tx_effect e = (e = BuildTx \<or> e = SignTx \<or> e = SubmitTx)"

section \<open>The aggregator: StorageService over Redis\<close>

record PriceMetrics =
  standardDeviation :: jsnumber
  spread :: jsnumber
  sourceCount :: jsnumber
  variance :: jsnumber

record AggregatedPrice =
  ap_symbol :: string
  ap_price :: jsnumber
  ap_method :: string
  confidence :: jsnumber
  metrics :: PriceMetrics
  startTimestamp :: int
  endTimestamp :: int
  sources :: "string list"
  computedAt :: int

text \<open>
  \<open>JSON.stringify\<close> and \<open>JSON.parse\<close> are the platform's: a codec is given, whose
  \<open>parse\<close> is \<open>None\<close> where \<open>JSON.parse\<close> throws.
\<close>

record json_codec =
  stringify :: "AggregatedPrice \<Rightarrow> string"
  parse :: "string \<Rightarrow> AggregatedPrice option"

subsection \<open>The Redis server, as far as the service uses it\<close>

text \<open>
  The three kinds of keys the service writes never share a name (\<open>:latest:\<close>,
  \<open>:history:\<close>, \<open>:symbols\<close>), so the server keeps them apart: strings with their time
  to live, sorted sets as lists in rank order, sets as lists without repetition. The
  expiry of a key as time passes is not modelled. \<open>connections\<close> lists the URLs of the
  connections that are open.
\<close>

record RedisServer =
  connections :: "string list"
  strings :: "string \<Rightarrow> (string \<times> int) option"
  zsets :: "string \<Rightarrow> (int \<times> string) list"
  sets :: "string \<Rightarrow> string list"

text \<open>\<open>SET key value EX ttl\<close>: an error, and no change, unless \<open>ttl\<close> is a positive integer.\<close>

definition redis_set_ex :: "string \<Rightarrow> string \<Rightarrow> int option \<Rightarrow> RedisServer \<Rightarrow> RedisServer" where
  "redis_set_ex k v ttl srv =
     (case ttl of
        None \<Rightarrow> srv
      | Some t \<Rightarrow> if t \<le> 0 then srv else srv\<lparr> strings := (strings srv)(k \<mapsto> (v, t)) \<rparr>)"

text \<open>Members of equal score are ranked by their bytes.\<close>

fun str_le :: "string \<Rightarrow> string \<Rightarrow> bool" where
  "str_le [] ys = True"
| "str_le (x # xs) [] = False"
| "str_le (x # xs) (y # ys) = ((of_char x :: nat) < of_char y \<or> (x = y \<and> str_le xs ys))"

definition entry_le :: "int \<times> string \<Rightarrow> int \<times> string \<Rightarrow> bool" where
  "entry_le a b = (fst a < fst b \<or> (fst a = fst b \<and> str_le (snd a) (snd b)))"

fun zinsert :: "int \<times> string \<Rightarrow> (int \<times> string) list \<Rightarrow> (int \<times> string) list" where
  "zinsert e [] = [e]"
| "zinsert e (x # xs) = (if entry_le e x then e # x # xs else x # zinsert e xs)"

text \<open>\<open>ZADD key score member\<close>: the member gets the score, and its rank by it.\<close>

definition redis_zadd :: "string \<Rightarrow> int \<Rightarrow> string \<Rightarrow> RedisServer \<Rightarrow> RedisServer" where
  "redis_zadd k score m srv =
     srv\<lparr> zsets := (zsets srv)(k := zinsert (score, m) (filter (\<lambda>e. snd e \<noteq> m) (zsets srv k))) \<rparr>"

text \<open>
  \<open>ZREMRANGEBYRANK key start stop\<close>: negative ranks count from the end; an error, and
  no change, where \<open>stop\<close> is no integer.
\<close>

definition remove_ranks :: "int \<Rightarrow> int \<Rightarrow> 'a list \<Rightarrow> 'a list" where
  "remove_ranks start stop xs =
     (let n = int (length xs);
          s = (if start < 0 then max 0 (n + start) else start);
          e = (if stop < 0 then n + stop else min stop (n - 1))
      in if s > e \<or> s \<ge> n then xs else take (nat s) xs @ drop (nat (e + 1)) xs)"

definition redis_zremrangebyrank :: "string \<Rightarrow> int \<Rightarrow> int option \<Rightarrow> RedisServer \<Rightarrow> RedisServer" where
  "redis_zremrangebyrank k start stop srv =
     (case stop of
        None \<Rightarrow> srv
      | Some e \<Rightarrow> srv\<lparr> zsets := (zsets srv)(k := remove_ranks start e (zsets srv k)) \<rparr>)"

definition redis_sadd :: "string \<Rightarrow> string \<Rightarrow> RedisServer \<Rightarrow> RedisServer" where
  "redis_sadd k m srv =
     (if m \<in> set (sets srv k) then srv else srv\<lparr> sets := (sets srv)(k := sets srv k @ [m]) \<rparr>)"

definition redis_srem :: "string \<Rightarrow> string \<Rightarrow> RedisServer \<Rightarrow> RedisServer" where
  "redis_srem k m srv = srv\<lparr> sets := (sets srv)(k := filter (\<lambda>x. x \<noteq> m) (sets srv k)) \<rparr>"

definition redis_del :: "string \<Rightarrow> RedisServer \<Rightarrow> RedisServer" where
  "redis_del k srv =
     srv\<lparr> strings := (strings srv)(k := None), zsets := (zsets srv)(k := []),
          sets := (sets srv)(k := []) \<rparr>"

definition redis_get :: "RedisServer \<Rightarrow> string \<Rightarrow> string option" where
  "redis_get srv k = map_option fst (strings srv k)"

text \<open>
  \<open>ZRANGEBYSCORE key min max [LIMIT 0 count]\<close>: \<open>max\<close> is \<open>None\<close> for \<open>+inf\<close>; a negative
  count is no limit.
\<close>

definition redis_zrangebyscore ::
  "RedisServer \<Rightarrow> string \<Rightarrow> int \<Rightarrow> int option \<Rightarrow> int option \<Rightarrow> string list" where
  "redis_zrangebyscore srv k lo hi limit =
     (let hits = map snd (filter (\<lambda>e. lo \<le> fst e \<and> (case hi of None \<Rightarrow> True | Some h \<Rightarrow> fst e \<le> h))
                               (zsets srv k))
      in case limit of
           None \<Rightarrow> hits
         | Some c \<Rightarrow> if c < 0 then hits else take (nat c) hits)"

subsection \<open>The service\<close>

text \<open>
  \<open>parseInt(s, 10)\<close>: leading blanks, a sign, then digits; \<open>None\<close> is NaN. The value is
  exact here; the code's is a double, which rounds an integer beyond \<open>2^53\<close>.
\<close>

definition parseInt10 :: "string \<Rightarrow> int option" where
  "parseInt10 s =
     (let t = dropWhile is_blank s;
          neg = (t \<noteq> [] \<and> hd t = CHR ''-'');
          u = (if t \<noteq> [] \<and> (hd t = CHR ''-'' \<or> hd t = CHR ''+'') then tl t else t);
          ds = takeWhile is_digit u
      in if ds = [] then None
         else Some (if neg then - digits_value ds else digits_value ds))"

record ResolvedStorageOptions =
  redisUrl :: string
  priceTtlSeconds :: "int option"
  historyMaxEntries :: "int option"
  keyPrefix :: string

record MetricsService =
  storageCacheHits :: nat
  storageCacheMisses :: nat
  storageOperationDuration :: "(string \<times> real) list"

record RedisClient =
  rc_url :: string

text \<open>
  The service's fields. \<open>opts\<close> is unset until \<open>onModuleInit\<close> has run; the metrics
  service is optional.
\<close>

record StorageService =
  ss_client :: "RedisClient option"
  opts :: "ResolvedStorageOptions option"
  metricsService :: "MetricsService option"

definition new_StorageService :: "MetricsService option \<Rightarrow> StorageService" where
  "new_StorageService m = \<lparr> ss_client = None, opts = None, metricsService = m \<rparr>"

text \<open>\<open>a ?? b\<close> on what \<open>configService.get\<close> returns.\<close>

definition or_default :: "string option \<Rightarrow> string \<Rightarrow> string" where
  "or_default v d = (case v of None \<Rightarrow> d | Some x \<Rightarrow> x)"

definition resolveOptions :: "(string \<Rightarrow> string option) \<Rightarrow> ResolvedStorageOptions" where
  "resolveOptions cfg =
     \<lparr> redisUrl = or_default (cfg ''REDIS_URL'') [],
       priceTtlSeconds = parseInt10 (or_default (cfg ''REDIS_PRICE_TTL_SECONDS'') ''300''),
       historyMaxEntries = parseInt10 (or_default (cfg ''REDIS_HISTORY_MAX_ENTRIES'') ''100''),
       keyPrefix = or_default (cfg ''REDIS_KEY_PREFIX'') ''price'' \<rparr>"

text \<open>The reconnection delay: none after twenty attempts.\<close>

definition retryStrategy :: "int \<Rightarrow> int option" where
  "retryStrategy attempts = (if attempts > 20 then None else Some (min (attempts * 100) 3000))"

text \<open>\<open>connect\<close> creates the client, which opens a connection at once (\<open>lazyConnect\<close> is off).\<close>

definition connect :: "StorageService \<Rightarrow> RedisServer \<Rightarrow> StorageService \<times> RedisServer" where
  "connect svc srv =
     (case opts svc of
        None \<Rightarrow> (svc, srv)
      | Some ob \<Rightarrow>
          (svc\<lparr> ss_client := Some \<lparr> rc_url = redisUrl ob \<rparr> \<rparr>,
           srv\<lparr> connections := connections srv @ [redisUrl ob] \<rparr>))"

definition onModuleInit ::
  "(string \<Rightarrow> string option) \<Rightarrow> StorageService \<Rightarrow> RedisServer \<Rightarrow> StorageService \<times> RedisServer" where
  "onModuleInit cfg svc srv =
     (let ob = resolveOptions cfg; svc1 = svc\<lparr> opts := Some ob \<rparr>
      in if redisUrl ob = [] then (svc1, srv) else connect svc1 srv)"

definition onModuleDestroy :: "StorageService \<Rightarrow> RedisServer \<Rightarrow> StorageService \<times> RedisServer" where
  "onModuleDestroy svc srv =
     (case ss_client svc of
        None \<Rightarrow> (svc, srv)
      | Some c \<Rightarrow> (svc, srv\<lparr> connections := remove1 (rc_url c) (connections srv) \<rparr>))"

definition latestKey :: "ResolvedStorageOptions \<Rightarrow> string \<Rightarrow> string" where
  "latestKey ob sy = keyPrefix ob @ '':latest:'' @ toUpperCase sy"

definition historyKey :: "ResolvedStorageOptions \<Rightarrow> string \<Rightarrow> string" where
  "historyKey ob sy = keyPrefix ob @ '':history:'' @ toUpperCase sy"

definition symbolsKey :: "ResolvedStorageOptions \<Rightarrow> string" where
  "symbolsKey ob = keyPrefix ob @ '':symbols''"

definition recordCacheAccess :: "bool \<Rightarrow> StorageService \<Rightarrow> StorageService" where
  "recordCacheAccess hit svc =
     (case metricsService svc of
        None \<Rightarrow> svc
      | Some m \<Rightarrow>
          svc\<lparr> metricsService :=
                 Some (if hit then m\<lparr> storageCacheHits := storageCacheHits m + 1 \<rparr>
                       else m\<lparr> storageCacheMisses := storageCacheMisses m + 1 \<rparr>) \<rparr>)"

definition recordDuration :: "string \<Rightarrow> int \<Rightarrow> StorageService \<Rightarrow> StorageService" where
  "recordDuration operation durationMs svc =
     (case metricsService svc of
        None \<Rightarrow> svc
      | Some m \<Rightarrow>
          svc\<lparr> metricsService :=
                 Some (m\<lparr> storageOperationDuration :=
                            storageOperationDuration m @ [(operation, real_of_int durationMs / 1000)] \<rparr>) \<rparr>)"

text \<open>The four commands one price adds to a pipeline.\<close>

definition store_commands :: "json_codec \<Rightarrow> ResolvedStorageOptions \<Rightarrow> AggregatedPrice \<Rightarrow> RedisServer \<Rightarrow> RedisServer" where
  "store_commands codec ob p srv =
     (let sy = toUpperCase (ap_symbol p); serialized = stringify codec p
      in redis_sadd (symbolsKey ob) sy
           (redis_zremrangebyrank (historyKey ob sy) 0 (map_option (\<lambda>m. - (m + 1)) (historyMaxEntries ob))
              (redis_zadd (historyKey ob sy) (computedAt p) serialized
                 (redis_set_ex (latestKey ob sy) serialized (priceTtlSeconds ob) srv))))"

text \<open>
  Every method takes the service and the server and returns its result with both.
  \<open>elapsed\<close> is the time between the two readings of \<open>Date.now()\<close>. A client without
  options cannot come out of \<open>onModuleInit\<close>; reading \<open>this.opts\<close> would be a
  \<open>TypeError\<close> there.
\<close>

definition storePrice ::
  "json_codec \<Rightarrow> int \<Rightarrow> StorageService \<Rightarrow> RedisServer \<Rightarrow> AggregatedPrice
     \<Rightarrow> (js_error + unit) \<times> StorageService \<times> RedisServer" where
  "storePrice codec elapsed svc srv p =
     (case ss_client svc of
        None \<Rightarrow> (Inr (), svc, srv)
      | Some c \<Rightarrow>
          (case opts svc of
             None \<Rightarrow> (Inl TypeError, svc, srv)
           | Some ob \<Rightarrow> (Inr (), recordDuration ''write'' elapsed svc, store_commands codec ob p srv)))"

definition storage_getLatestPrice ::
  "json_codec \<Rightarrow> int \<Rightarrow> StorageService \<Rightarrow> RedisServer \<Rightarrow> string
     \<Rightarrow> (js_error + AggregatedPrice option) \<times> StorageService \<times> RedisServer" where
  "storage_getLatestPrice codec elapsed svc srv sy =
     (case ss_client svc of
        None \<Rightarrow> (Inr None, svc, srv)
      | Some c \<Rightarrow>
          (case opts svc of
             None \<Rightarrow> (Inl TypeError, svc, srv)
           | Some ob \<Rightarrow>
               (let raw = redis_get srv (latestKey ob sy);
                    svc1 = recordDuration ''read'' elapsed (recordCacheAccess (raw \<noteq> None) svc)
                in case raw of
                     None \<Rightarrow> (Inr None, svc1, srv)
                   | Some r \<Rightarrow>
                       if r = [] then (Inr None, svc1, srv)
                       else (case parse codec r of
                               None \<Rightarrow> (Inl SyntaxError, svc1, srv)
                             | Some v \<Rightarrow> (Inr (Some v), svc1, srv)))))"

text \<open>\<open>raw.map(JSON.parse)\<close>: the first entry that does not parse throws.\<close>

fun parse_all :: "json_codec \<Rightarrow> string list \<Rightarrow> js_error + AggregatedPrice list" where
  "parse_all codec [] = Inr []"
| "parse_all codec (r # rs) =
     (case parse codec r of
        None \<Rightarrow> Inl SyntaxError
      | Some v \<Rightarrow> (case parse_all codec rs of Inl e \<Rightarrow> Inl e | Inr vs \<Rightarrow> Inr (v # vs)))"

definition getPriceHistory ::
  "json_codec \<Rightarrow> int \<Rightarrow> StorageService \<Rightarrow> RedisServer \<Rightarrow> string \<Rightarrow> int \<Rightarrow> int option \<Rightarrow> int option
     \<Rightarrow> (js_error + AggregatedPrice list) \<times> StorageService \<times> RedisServer" where
  "getPriceHistory codec elapsed svc srv sy fromMs toMs limit =
     (case ss_client svc of
        None \<Rightarrow> (Inr [], svc, srv)
      | Some c \<Rightarrow>
          (case opts svc of
             None \<Rightarrow> (Inl TypeError, svc, srv)
           | Some ob \<Rightarrow>
               (parse_all codec (redis_zrangebyscore srv (historyKey ob sy) fromMs toMs limit),
                recordDuration ''read'' elapsed svc, srv)))"

definition storePriceBatch ::
  "json_codec \<Rightarrow> int \<Rightarrow> StorageService \<Rightarrow> RedisServer \<Rightarrow> AggregatedPrice list
     \<Rightarrow> (js_error + unit) \<times> StorageService \<times> RedisServer" where
  "storePriceBatch codec elapsed svc srv prices =
     (case ss_client svc of
        None \<Rightarrow> (Inr (), svc, srv)
      | Some c \<Rightarrow>
          if prices = [] then (Inr (), svc, srv)
          else (case opts svc of
                  None \<Rightarrow> (Inl TypeError, svc, srv)
                | Some ob \<Rightarrow>
                    (Inr (), recordDuration ''write'' elapsed svc,
                     foldl (\<lambda>sv p. store_commands codec ob p sv) srv prices)))"

text \<open>
  The loop of \<open>getLatestPriceBatch\<close> over the symbols and the values \<open>MGET\<close> returned
  for them: each is counted as a hit or a miss, and each that is there is parsed into
  the result.
\<close>

fun batch_loop ::
  "json_codec \<Rightarrow> (string \<times> string option) list \<Rightarrow> StorageService \<Rightarrow> (string \<Rightarrow> AggregatedPrice option)
     \<Rightarrow> (js_error + (string \<Rightarrow> AggregatedPrice option)) \<times> StorageService" where
  "batch_loop codec [] svc results = (Inr results, svc)"
| "batch_loop codec ((sy, raw) # rest) svc results =
     (let svc1 = recordCacheAccess (raw \<noteq> None) svc
      in case raw of
           None \<Rightarrow> batch_loop codec rest svc1 results
         | Some r \<Rightarrow>
             if r = [] then batch_loop codec rest svc1 results
             else (case parse codec r of
                     None \<Rightarrow> (Inl SyntaxError, svc1)
                   | Some v \<Rightarrow> batch_loop codec rest svc1 (results(sy \<mapsto> v))))"

definition getLatestPriceBatch ::
  "json_codec \<Rightarrow> int \<Rightarrow> StorageService \<Rightarrow> RedisServer \<Rightarrow> string list
     \<Rightarrow> (js_error + (string \<Rightarrow> AggregatedPrice option)) \<times> StorageService \<times> RedisServer" where
  "getLatestPriceBatch codec elapsed svc srv symbols =
     (case ss_client svc of
        None \<Rightarrow> (Inr Map.empty, svc, srv)
      | Some c \<Rightarrow>
          if symbols = [] then (Inr Map.empty, svc, srv)
          else (case opts svc of
                  None \<Rightarrow> (Inl TypeError, svc, srv)
                | Some ob \<Rightarrow>
                    (let upperSymbols = map toUpperCase symbols;
                         vals = map (\<lambda>sy. redis_get srv (latestKey ob sy)) upperSymbols;
                         res = batch_loop codec (zip upperSymbols vals) svc Map.empty
                      in case fst res of
                           Inl e \<Rightarrow> (Inl e, snd res, srv)
                         | Inr m \<Rightarrow> (Inr m, recordDuration ''read'' elapsed (snd res), srv))))"

definition getTrackedSymbols ::
  "StorageService \<Rightarrow> RedisServer \<Rightarrow> (js_error + string list) \<times> StorageService \<times> RedisServer" where
  "getTrackedSymbols svc srv =
     (case ss_client svc of
        None \<Rightarrow> (Inr [], svc, srv)
      | Some c \<Rightarrow>
          (case opts svc of
             None \<Rightarrow> (Inl TypeError, svc, srv)
           | Some ob \<Rightarrow> (Inr (sets srv (symbolsKey ob)), svc, srv)))"

definition deleteSymbol ::
  "StorageService \<Rightarrow> RedisServer \<Rightarrow> string \<Rightarrow> (js_error + unit) \<times> StorageService \<times> RedisServer" where
  "deleteSymbol svc srv sy =
     (case ss_client svc of
        None \<Rightarrow> (Inr (), svc, srv)
      | Some c \<Rightarrow>
          (case opts svc of
             None \<Rightarrow> (Inl TypeError, svc, srv)
           | Some ob \<Rightarrow>
               (let s = toUpperCase sy
                in (Inr (), svc,
                    redis_srem (symbolsKey ob) s
                      (redis_del (historyKey ob s) (redis_del (latestKey ob s) srv))))))"

subsection \<open>Sequences of calls\<close>

text \<open>
  The public methods as one type of calls, so that a sequence of them can be run
  against the service: each call hands the service and the server on to the next.
\<close>

datatype call =
    StorePrice AggregatedPrice
  | GetLatestPrice string
  | GetPriceHistory string int "int option" "int option"
  | StorePriceBatch "AggregatedPrice list"
  | GetLatestPriceBatch "string list"
  | GetTrackedSymbols
  | DeleteSymbol string

datatype reply =
    Done
  | Price "AggregatedPrice option"
  | History "AggregatedPrice list"
  | Batch "string \<Rightarrow> AggregatedPrice option"
  | Symbols "string list"

text \<open>A method's result, as a reply.\<close>

definition lift_reply ::
  "('a \<Rightarrow> reply) \<Rightarrow> (js_error + 'a) \<times> StorageService \<times> RedisServer
     \<Rightarrow> (js_error + reply) \<times> StorageService \<times> RedisServer" where
  "lift_reply f r = (map_sum id f (fst r), snd r)"

fun invoke ::
  "json_codec \<Rightarrow> int \<Rightarrow> StorageService \<Rightarrow> RedisServer \<Rightarrow> call
     \<Rightarrow> (js_error + reply) \<times> StorageService \<times> RedisServer" where
  "invoke codec el svc srv (StorePrice p) = lift_reply (\<lambda>u. Done) (storePrice codec el svc srv p)"
| "invoke codec el svc srv (GetLatestPrice sy) = lift_reply Price (storage_getLatestPrice codec el svc srv sy)"
| "invoke codec el svc srv (GetPriceHistory sy lo hi limit) =
     lift_reply History (getPriceHistory codec el svc srv sy lo hi limit)"
| "invoke codec el svc srv (StorePriceBatch ps) = lift_reply (\<lambda>u. Done) (storePriceBatch codec el svc srv ps)"
| "invoke codec el svc srv (GetLatestPriceBatch sys) = lift_reply Batch (getLatestPriceBatch codec el svc srv sys)"
| "invoke codec el svc srv GetTrackedSymbols = lift_reply Symbols (getTrackedSymbols svc srv)"
| "invoke codec el svc srv (DeleteSymbol sy) = lift_reply (\<lambda>u. Done) (deleteSymbol svc srv sy)"

fun run ::
  "json_codec \<Rightarrow> int \<Rightarrow> StorageService \<Rightarrow> RedisServer \<Rightarrow> call list
     \<Rightarrow> (js_error + reply) list \<times> StorageService \<times> RedisServer" where
  "run codec el svc srv [] = ([], svc, srv)"
| "run codec el svc srv (c # cs) =
     (let r = invoke codec el svc srv c; rest = run codec el (fst (snd r)) (snd (snd r)) cs
      in (fst r # fst rest, snd rest))"

text \<open>The empty value of each method.\<close>

fun safe_empty :: "call \<Rightarrow> reply" where
  "safe_empty (StorePrice p) = Done"
| "safe_empty (GetLatestPrice sy) = Price None"
| "safe_empty (GetPriceHistory sy lo hi limit) = History []"
| "safe_empty (StorePriceBatch ps) = Done"
| "safe_empty (GetLatestPriceBatch sys) = Batch Map.empty"
| "safe_empty GetTrackedSymbols = Symbols []"
| "safe_empty (DeleteSymbol sy) = Done"

section \<open>The lending pool, from the specification\<close>

text \<open>
  The lending pool is a contract of its own, of which the sources hold the README only.
  Its state and operations are set down here as the specification describes them.
\<close>

text \<open>
  Modelled from the spec: the lending pool contract is not among the sources (only its
  README is). Assets and accounts are named by their identifiers.
\<close>

type_synonym asset = string

text \<open>
  Modelled from the spec: the addresses of lenders, borrowers and backstop depositors,
  missing with the contract.
\<close>

type_synonym address = string

text \<open>
  Modelled from the spec: the lending contract is missing; the rounding direction is an
  explicit parameter of the two conversions (4.2, 9).
\<close>

datatype rounding = RoundDown | RoundUp

text \<open>
  Modelled from the spec: integer division with its rounding direction (4.1: all math by
  integer multiplication and division with explicit rounding).
\<close>

definition div_round :: "rounding \<Rightarrow> int \<Rightarrow> int \<Rightarrow> int" where
  "div_round rnd a b = (case rnd of RoundDown \<Rightarrow> a div b | RoundUp \<Rightarrow> - ((- a) div b))"

text \<open>
  Modelled from the spec: \<open>toShares(underlying, rate)\<close> of 4.2, missing with
  the contract. \<open>one\<close> is the fixed-point value of the rate 1.0, which the
  spec leaves open.
\<close>

definition toShares :: "int \<Rightarrow> rounding \<Rightarrow> int \<Rightarrow> int \<Rightarrow> int" where
  "toShares one rnd underlying rate = div_round rnd (underlying * one) rate"

text \<open>
  Modelled from the spec: \<open>toUnderlying(shares, rate)\<close> of 4.2, missing with
  the contract.
\<close>

definition toUnderlying :: "int \<Rightarrow> rounding \<Rightarrow> int \<Rightarrow> int \<Rightarrow> int" where
  "toUnderlying one rnd shares rate = div_round rnd (shares * rate) one"

text \<open>
  Modelled from the spec: \<open>ReserveState\<close> of section 3 (totals, the two
  rates, the last accrual), with the flag 4.6 sets once the backstop is exhausted.
\<close>

record ReserveState =
  totalDeposited :: int
  totalBorrowed :: int
  bTokenRate :: int
  dTokenRate :: int
  lastAccrual :: int
  unrecoverableLoss :: bool

text \<open>
  Modelled from the spec: \<open>Position\<close> of section 3: collateral amounts per
  RWA token, at most one debt asset with its dToken balance, bToken balances per lending
  asset.
\<close>

record Position =
  collateral :: "asset \<Rightarrow> int"
  debtAsset :: "asset option"
  dTokenBalance :: int
  bTokenBalance :: "asset \<Rightarrow> int"

text \<open>
  Modelled from the spec: the persisted state of section 6, as far as the operations
  below use it: the reserves, the positions, the collateral factors (basis points), and
  the backstop with its shares and queued withdrawals (4.6).
\<close>

record Pool =
  rateOne :: int
  reserves :: "asset \<Rightarrow> ReserveState option"
  positions :: "address \<Rightarrow> Position"
  collateralAssets :: "asset list"
  collateralFactor :: "asset \<Rightarrow> int"
  backstopDeposits :: int
  backstopThreshold :: int
  backstopRate :: int
  backstopShares :: "address \<Rightarrow> int"
  queuedWithdrawal :: "address \<Rightarrow> (int \<times> int) option"

text \<open>
  Modelled from the spec: what an operation reads besides the state: the ledger time, the
  two price oracles of section 6 (a price and its timestamp, or nothing), and the
  interest the rate model of 4.1 yields for a reserve over an elapsed time, whose formula
  the spec does not give. The increments are naturals: rates never decrease (section 3).
\<close>

record Env =
  ledgerNow :: int
  collateralOracle :: "asset \<Rightarrow> (int \<times> int) option"
  debtOracle :: "asset \<Rightarrow> (int \<times> int) option"
  growth :: "ReserveState \<Rightarrow> int \<Rightarrow> nat \<times> nat"

text \<open>
  Modelled from the spec: the kinds of rejection of section 7.
\<close>

datatype pool_error =
    Validation | UnsupportedAsset | InsufficientBalance | InsufficientLiquidity
  | HealthViolation | OracleUnavailable | StateConflict | PoolInactive | NothingPending | TimeGate

text \<open>
  Modelled from the spec: a reserve as created at deployment: nothing deposited or
  borrowed, both rates 1.0.
\<close>

definition new_reserve :: "int \<Rightarrow> int \<Rightarrow> ReserveState" where
  "new_reserve one t = \<lparr> totalDeposited = 0, totalBorrowed = 0, bTokenRate = one, dTokenRate = one,
     lastAccrual = t, unrecoverableLoss = False \<rparr>"

text \<open>
  Modelled from the spec: a position before its first operation.
\<close>

definition empty_position :: Position where
  "empty_position = \<lparr> collateral = (\<lambda>a. 0), debtAsset = None, dTokenBalance = 0,
     bTokenBalance = (\<lambda>a. 0) \<rparr>"

text \<open>
  Modelled from the spec: \<open>accrue\<close> of 4.2. It adds the interest for the time
  elapsed since the last accrual to the two rates and changes nothing at the same
  timestamp (section 8, idempotence).
\<close>

definition accrue :: "Env \<Rightarrow> ReserveState \<Rightarrow> ReserveState" where
  "accrue env r =
     (if ledgerNow env \<le> lastAccrual r then r
      else (let g = growth env r (ledgerNow env - lastAccrual r)
            in r\<lparr> bTokenRate := bTokenRate r + int (fst g), dTokenRate := dTokenRate r + int (snd g),
                 lastAccrual := ledgerNow env \<rparr>))"

text \<open>
  Modelled from the spec: the collateral value of 4.3, the sum over the collateral held
  of \<open>amount * price * factor / 10000\<close>; nothing where the oracle has no
  price for a token held.
\<close>

fun collateral_value :: "Env \<Rightarrow> Pool \<Rightarrow> Position \<Rightarrow> asset list \<Rightarrow> int option" where
  "collateral_value env p pos [] = Some 0"
| "collateral_value env p pos (a # as) =
     (if collateral pos a = 0 then collateral_value env p pos as
      else (case collateralOracle env a of
              None \<Rightarrow> None
            | Some pr \<Rightarrow>
                (case collateral_value env p pos as of
                   None \<Rightarrow> None
                 | Some v \<Rightarrow> Some (collateral pos a * fst pr * collateralFactor p a div 10000 + v))))"

text \<open>
  Modelled from the spec: the debt value of 4.3, \<open>toUnderlying(dTokenBalance,
  dTokenRate) * price\<close>; nothing where the oracle has no price.
\<close>

definition debt_value :: "Env \<Rightarrow> Pool \<Rightarrow> Position \<Rightarrow> int option" where
  "debt_value env p pos =
     (case debtAsset pos of
        None \<Rightarrow> Some 0
      | Some a \<Rightarrow>
          (case (reserves p a, debtOracle env a) of
             (Some r, Some pr) \<Rightarrow> Some (toUnderlying (rateOne p) RoundUp (dTokenBalance pos) (dTokenRate r) * fst pr)
           | _ \<Rightarrow> None))"

text \<open>
  Modelled from the spec: health factor at least 1.0 (4.3): the collateral value covers
  the debt value, and a position without debt is healthy.
\<close>

definition healthy :: "Env \<Rightarrow> Pool \<Rightarrow> Position \<Rightarrow> bool option" where
  "healthy env p pos =
     (case (collateral_value env p pos (collateralAssets p), debt_value env p pos) of
        (Some cv, Some dv) \<Rightarrow> Some (dv \<le> 0 \<or> dv \<le> cv)
      | _ \<Rightarrow> None)"

text \<open>
  Modelled from the spec: \<open>deposit\<close> of 4.4. The result is the bTokens
  minted.
\<close>

definition deposit :: "Env \<Rightarrow> address \<Rightarrow> asset \<Rightarrow> int \<Rightarrow> Pool \<Rightarrow> pool_error + (int \<times> Pool)" where
  "deposit env caller a amount p =
     (if amount \<le> 0 then Inl Validation
      else (case reserves p a of
              None \<Rightarrow> Inl UnsupportedAsset
            | Some r0 \<Rightarrow>
                (let r = accrue env r0;
                     shares = toShares (rateOne p) RoundDown amount (bTokenRate r);
                     pos = positions p caller
                 in Inr (shares,
                      p\<lparr> reserves := (reserves p)(a \<mapsto> r\<lparr> totalDeposited := totalDeposited r + amount \<rparr>),
                         positions := (positions p)(caller :=
                           pos\<lparr> bTokenBalance := (bTokenBalance pos)(a := bTokenBalance pos a + shares) \<rparr>) \<rparr>))))"

text \<open>
  Modelled from the spec: \<open>withdraw\<close> of 4.4. The result is the underlying paid out,
  by which \<open>totalDeposited\<close> goes down (the spec's guard compares the deposits less the
  underlying with the borrows).
\<close>

definition withdraw :: "Env \<Rightarrow> address \<Rightarrow> asset \<Rightarrow> int \<Rightarrow> Pool \<Rightarrow> pool_error + (int \<times> Pool)" where
  "withdraw env caller a bTokenAmount p =
     (if bTokenAmount \<le> 0 then Inl Validation
      else (case reserves p a of
              None \<Rightarrow> Inl UnsupportedAsset
            | Some r0 \<Rightarrow>
                (let r = accrue env r0;
                     pos = positions p caller;
                     underlying = toUnderlying (rateOne p) RoundDown bTokenAmount (bTokenRate r)
                 in if bTokenBalance pos a < bTokenAmount then Inl InsufficientBalance
                    else if totalDeposited r - underlying < totalBorrowed r then Inl InsufficientLiquidity
                    else Inr (underlying,
                      p\<lparr> reserves := (reserves p)(a \<mapsto> r\<lparr> totalDeposited := totalDeposited r - underlying \<rparr>),
                         positions := (positions p)(caller :=
                           pos\<lparr> bTokenBalance := (bTokenBalance pos)(a := bTokenBalance pos a - bTokenAmount) \<rparr>) \<rparr>))))"

text \<open>
  Modelled from the spec: \<open>borrow\<close> of 4.4, with the activation gate of 4.6; the
  requirements are checked in the order the spec lists them. \<open>totalBorrowed\<close> goes up by
  the amount, and the health factor is taken on the position as it is after the borrow.
  The result is the dTokens minted.
\<close>

definition borrow :: "Env \<Rightarrow> address \<Rightarrow> asset \<Rightarrow> int \<Rightarrow> Pool \<Rightarrow> pool_error + (int \<times> Pool)" where
  "borrow env caller a amount p =
     (if amount \<le> 0 then Inl Validation
      else (case reserves p a of
              None \<Rightarrow> Inl UnsupportedAsset
            | Some r0 \<Rightarrow>
                (let r = accrue env r0;
                     pos = positions p caller;
                     shares = toShares (rateOne p) RoundUp amount (dTokenRate r);
                     r' = r\<lparr> totalBorrowed := totalBorrowed r + amount \<rparr>;
                     pos' = pos\<lparr> debtAsset := Some a, dTokenBalance := dTokenBalance pos + shares \<rparr>;
                     p' = p\<lparr> reserves := (reserves p)(a \<mapsto> r'), positions := (positions p)(caller := pos') \<rparr>
                 in if debtAsset pos \<noteq> None \<and> debtAsset pos \<noteq> Some a then Inl StateConflict
                    else if backstopDeposits p \<le> backstopThreshold p then Inl PoolInactive
                    else (case healthy env p' pos' of
                            None \<Rightarrow> Inl OracleUnavailable
                          | Some h \<Rightarrow>
                              if \<not> h then Inl HealthViolation
                              else if totalDeposited r < totalBorrowed r + amount
                              then Inl InsufficientLiquidity
                              else Inr (shares, p')))))"

text \<open>
  Modelled from the spec: \<open>repay\<close> of 4.4. The result is the underlying the
  caller pays.
\<close>

definition repay :: "Env \<Rightarrow> address \<Rightarrow> asset \<Rightarrow> int \<Rightarrow> Pool \<Rightarrow> pool_error + (int \<times> Pool)" where
  "repay env caller a dTokenAmount p =
     (if dTokenAmount \<le> 0 then Inl Validation
      else (case reserves p a of
              None \<Rightarrow> Inl UnsupportedAsset
            | Some r0 \<Rightarrow>
                (let r = accrue env r0;
                     pos = positions p caller;
                     underlying = toUnderlying (rateOne p) RoundUp dTokenAmount (dTokenRate r);
                     left = dTokenBalance pos - dTokenAmount
                 in if debtAsset pos \<noteq> Some a \<or> dTokenBalance pos < dTokenAmount then Inl InsufficientBalance
                    else Inr (underlying,
                      p\<lparr> reserves := (reserves p)(a \<mapsto> r\<lparr> totalBorrowed := totalBorrowed r - underlying \<rparr>),
                         positions := (positions p)(caller :=
                           pos\<lparr> dTokenBalance := left,
                                debtAsset := (if left = 0 then None else Some a) \<rparr>) \<rparr>))))"

text \<open>
  Modelled from the spec: \<open>add_collateral\<close> of 4.4.
\<close>

definition add_collateral :: "address \<Rightarrow> asset \<Rightarrow> int \<Rightarrow> Pool \<Rightarrow> pool_error + (int \<times> Pool)" where
  "add_collateral caller tok amount p =
     (if amount \<le> 0 then Inl Validation
      else if tok \<notin> set (collateralAssets p) then Inl UnsupportedAsset
      else (let pos = positions p caller
            in Inr (amount,
                 p\<lparr> positions := (positions p)(caller :=
                      pos\<lparr> collateral := (collateral pos)(tok := collateral pos tok + amount) \<rparr>) \<rparr>)))"

text \<open>
  Modelled from the spec: \<open>remove_collateral\<close> of 4.4: the position must be
  healthy after the removal.
\<close>

definition remove_collateral :: "Env \<Rightarrow> address \<Rightarrow> asset \<Rightarrow> int \<Rightarrow> Pool \<Rightarrow> pool_error + (int \<times> Pool)" where
  "remove_collateral env caller tok amount p =
     (if amount \<le> 0 then Inl Validation
      else (let pos = positions p caller;
                pos' = pos\<lparr> collateral := (collateral pos)(tok := collateral pos tok - amount) \<rparr>;
                p' = p\<lparr> positions := (positions p)(caller := pos') \<rparr>
            in if collateral pos tok < amount then Inl InsufficientBalance
               else (case healthy env p' pos' of
                       None \<Rightarrow> Inl OracleUnavailable
                     | Some h \<Rightarrow> if h then Inr (amount, p') else Inl HealthViolation)))"

text \<open>
  Modelled from the spec: the bad-debt path of 4.5 and 4.6: the reserve's
  \<open>totalBorrowed\<close> is written down by the shortfall, the backstop absorbs
  what it can, and the rest sets the flag.
\<close>

definition write_down :: "asset \<Rightarrow> int \<Rightarrow> Pool \<Rightarrow> pool_error + (int \<times> Pool)" where
  "write_down a shortfall p =
     (if shortfall \<le> 0 then Inl Validation
      else (case reserves p a of
              None \<Rightarrow> Inl UnsupportedAsset
            | Some r \<Rightarrow>
                (let loss = min shortfall (backstopDeposits p);
                     left = backstopDeposits p - loss
                 in Inr (shortfall,
                      p\<lparr> reserves := (reserves p)(a \<mapsto>
                             r\<lparr> totalBorrowed := totalBorrowed r - shortfall,
                                unrecoverableLoss := (unrecoverableLoss r \<or> loss < shortfall) \<rparr>),
                         backstopDeposits := left,
                         backstopRate := (if backstopDeposits p \<le> 0 then backstopRate p
                                          else backstopRate p * left div backstopDeposits p) \<rparr>))))"

text \<open>
  Modelled from the spec: the 21-day lock of 4.6, in seconds.
\<close>

definition LOCK_PERIOD :: int where
  "LOCK_PERIOD = 21 * 86400"

text \<open>
  Modelled from the spec: \<open>backstop_deposit\<close> of 4.6. The result is the
  shares minted.
\<close>

definition backstop_deposit :: "address \<Rightarrow> int \<Rightarrow> Pool \<Rightarrow> pool_error + (int \<times> Pool)" where
  "backstop_deposit caller amount p =
     (if amount \<le> 0 then Inl Validation
      else (let shares = toShares (rateOne p) RoundDown amount (backstopRate p)
            in Inr (shares,
                 p\<lparr> backstopDeposits := backstopDeposits p + amount,
                    backstopShares := (backstopShares p)(caller := backstopShares p caller + shares) \<rparr>)))"

text \<open>
  Modelled from the spec: \<open>initiate_backstop_withdrawal\<close> of 4.6: one pending
  withdrawal per depositor, unlocked 21 days later. The result is the unlock time.
\<close>

definition initiate_backstop_withdrawal :: "Env \<Rightarrow> address \<Rightarrow> int \<Rightarrow> Pool \<Rightarrow> pool_error + (int \<times> Pool)" where
  "initiate_backstop_withdrawal env caller amount p =
     (if amount \<le> 0 then Inl Validation
      else if queuedWithdrawal p caller \<noteq> None then Inl StateConflict
      else if backstopShares p caller < amount then Inl InsufficientBalance
      else Inr (ledgerNow env + LOCK_PERIOD,
             p\<lparr> queuedWithdrawal := (queuedWithdrawal p)(caller \<mapsto> (amount, ledgerNow env + LOCK_PERIOD)) \<rparr>))"

text \<open>
  Modelled from the spec: \<open>complete_backstop_withdrawal\<close> of 4.6. The result
  is the underlying paid out.
\<close>

definition complete_backstop_withdrawal :: "Env \<Rightarrow> address \<Rightarrow> Pool \<Rightarrow> pool_error + (int \<times> Pool)" where
  "complete_backstop_withdrawal env caller p =
     (case queuedWithdrawal p caller of
        None \<Rightarrow> Inl NothingPending
      | Some q \<Rightarrow>
          if ledgerNow env < snd q then Inl TimeGate
          else (let underlying = toUnderlying (rateOne p) RoundDown (fst q) (backstopRate p)
                in Inr (underlying,
                     p\<lparr> backstopDeposits := backstopDeposits p - underlying,
                        backstopShares := (backstopShares p)(caller := backstopShares p caller - fst q),
                        queuedWithdrawal := (queuedWithdrawal p)(caller := None) \<rparr>)))"

text \<open>
  Modelled from the spec: the operations above as one type, so that sequences of them can
  be run.
\<close>

datatype pool_op =
    Deposit asset int | Withdraw asset int | AddCollateral asset int | RemoveCollateral asset int
  | Borrow asset int | Repay asset int | WriteDown asset int
  | BackstopDeposit int | InitiateBackstopWithdrawal int | CompleteBackstopWithdrawal

text \<open>
  Modelled from the spec: one operation of a caller on the pool.
\<close>

fun apply_op :: "Env \<Rightarrow> address \<Rightarrow> pool_op \<Rightarrow> Pool \<Rightarrow> pool_error + (int \<times> Pool)" where
  "apply_op env caller (Deposit a x) p = deposit env caller a x p"
| "apply_op env caller (Withdraw a x) p = withdraw env caller a x p"
| "apply_op env caller (AddCollateral a x) p = add_collateral caller a x p"
| "apply_op env caller (RemoveCollateral a x) p = remove_collateral env caller a x p"
| "apply_op env caller (Borrow a x) p = borrow env caller a x p"
| "apply_op env caller (Repay a x) p = repay env caller a x p"
| "apply_op env caller (WriteDown a x) p = write_down a x p"
| "apply_op env caller (BackstopDeposit x) p = backstop_deposit caller x p"
| "apply_op env caller (InitiateBackstopWithdrawal x) p = initiate_backstop_withdrawal env caller x p"
| "apply_op env caller CompleteBackstopWithdrawal p = complete_backstop_withdrawal env caller p"

text \<open>
  Modelled from the spec: the pool as its constructor leaves it (the README gives the
  constructor's parameters).
\<close>

definition new_pool :: "int \<Rightarrow> int \<Rightarrow> asset list \<Rightarrow> asset list \<Rightarrow> (asset \<Rightarrow> int) \<Rightarrow> int \<Rightarrow> Pool" where
  "new_pool one t supported rwas cf threshold =
     \<lparr> rateOne = one,
       reserves = (\<lambda>a. if a \<in> set supported then Some (new_reserve one t) else None),
       positions = (\<lambda>u. empty_position),
       collateralAssets = rwas, collateralFactor = cf,
       backstopDeposits = 0, backstopThreshold = threshold, backstopRate = one,
       backstopShares = (\<lambda>u. 0), queuedWithdrawal = (\<lambda>u. None) \<rparr>"

text \<open>
  Modelled from the spec: the states reachable from a pool by operations that succeed,
  each at any ledger time, by any caller, against any oracle.
\<close>

inductive reachable :: "Pool \<Rightarrow> Pool \<Rightarrow> bool" for p0 where
  start: "reachable p0 p0"
| step: "reachable p0 p \<Longrightarrow> apply_op env caller opn p = Inr (out, p') \<Longrightarrow> reachable p0 p'"

text \<open>
  Modelled from the spec: the solvency invariant of section 8.
\<close>

definition solvent :: "Pool \<Rightarrow> bool" where
  "solvent p = (\<forall>a r. reserves p a = Some r \<longrightarrow> totalBorrowed r \<le> totalDeposited r)"

text \<open>
  Modelled from the spec: no rate is below 1.0 (section 3: rates start at 1.0 and never
  decrease).
\<close>

definition rates_ok :: "Pool \<Rightarrow> bool" where
  "rates_ok p = (0 < rateOne p \<and> (\<forall>a r. reserves p a = Some r \<longrightarrow> rateOne p \<le> bTokenRate r \<and> rateOne p \<le> dTokenRate r))"

text \<open>
  Modelled from the spec: no bToken balance is negative (section 3).
\<close>

definition balances_ok :: "Pool \<Rightarrow> bool" where
  "balances_ok p = (\<forall>u a. 0 \<le> bTokenBalance (positions p u) a)"

text \<open>
  Modelled from the spec: the three invariants together.
\<close>

definition pool_inv :: "Pool \<Rightarrow> bool" where
  "pool_inv p = (solvent p \<and> rates_ok p \<and> balances_ok p)"

text \<open>Inputs for the worked examples.\<close>

definition finnhub :: FinnhubAdapter where
  "finnhub = \<lparr> baseUrl = ''https://finnhub.io/api/v1'', apiKey = Some ''k'' \<rparr>"

definition quote_response :: "json \<Rightarrow> string \<Rightarrow> fetch_outcome" where
  "quote_response c url = Response True ''OK'' (Parsed (JObj [(''c'', c), (''t'', JNum (Fin 1700000000))]))"

definition testnet_publisher :: SorobanPublisher where
  "testnet_publisher =
     new_SorobanPublisher (Inr ()) ''https://soroban-testnet.stellar.org'' ''CAY3'' ''GABC''"

definition tsla_params :: "jsnumber \<Rightarrow> PublishParams" where
  "tsla_params t = \<lparr> assetId = ''TSLA'', pp_price = Fin 2500000000, pp_timestamp = t,
     commit = ''ab'', proof_hex = None, proofPublicInputs = None \<rparr>"

text \<open>
  \<open>buildService\<close> and \<open>makeMockAggregatedPrice\<close> of the service's test: the configuration
  answers with the given URL (or \<open>undefined\<close>) and the three defaults.
\<close>

definition configGetFn :: "string option \<Rightarrow> string \<Rightarrow> string option" where
  "configGetFn url key =
     (if key = ''REDIS_URL'' then url
      else if key = ''REDIS_PRICE_TTL_SECONDS'' then Some ''300''
      else if key = ''REDIS_HISTORY_MAX_ENTRIES'' then Some ''100''
      else if key = ''REDIS_KEY_PREFIX'' then Some ''price''
      else None)"

definition buildService :: "string option \<Rightarrow> RedisServer \<Rightarrow> StorageService \<times> RedisServer" where
  "buildService url srv = onModuleInit (configGetFn url) (new_StorageService None) srv"

definition makeMockAggregatedPrice :: "string \<Rightarrow> AggregatedPrice" where
  "makeMockAggregatedPrice sy =
     \<lparr> ap_symbol = sy, ap_price = Fin (18235 / 100), ap_method = ''weighted-average'',
       confidence = Fin 88,
       metrics = \<lparr> standardDeviation = Fin (12 / 100), spread = Fin (1 / 2), sourceCount = Fin 4,
                   variance = Fin (144 / 10000) \<rparr>,
       startTimestamp = 1700000000000, endTimestamp = 1700000030000,
       sources = [''finnhub'', ''alpha_vantage''], computedAt = 1700000030000 \<rparr>"

definition no_server :: RedisServer where
  "no_server = \<lparr> connections = [], strings = Map.empty, zsets = (\<lambda>k. []), sets = (\<lambda>k. []) \<rparr>"

definition no_codec :: json_codec where
  "no_codec = \<lparr> stringify = (\<lambda>p. ap_symbol p), parse = (\<lambda>s. None) \<rparr>"

text \<open>
  Modelled from the spec: the pool of the scenarios of section 8, with one reserve and
  one collateral token at 8000 basis points.
\<close>

definition usdc_pool :: Pool where
  "usdc_pool = new_pool 1000000000 0 [''USDC''] [''NVDA''] (\<lambda>a. 8000) 0"

text \<open>
  Modelled from the spec: a transaction at a given ledger time, with no interest and
  no prices.
\<close>

definition env_at :: "int \<Rightarrow> Env" where
  "env_at t = \<lparr> ledgerNow = t, collateralOracle = (\<lambda>a. None), debtOracle = (\<lambda>a. None),
     growth = (\<lambda>r dt. (0, 0)) \<rparr>"

text \<open>
  Modelled from the spec: the state of scenario 4 after the backstop deposit of 10,000
  and the withdrawal initiated at time 1000.
\<close>

definition scenario4 :: Pool where
  "scenario4 = snd (projr (initiate_backstop_withdrawal (env_at 1000) ''alice'' 10000
       (snd (projr (backstop_deposit ''alice'' 10000 usdc_pool)))))"

text \<open>
  Modelled from the spec: a transaction at time 10 for which the rate model yields
  half a unit of interest on the bToken rate.
\<close>

definition env_growing :: Env where
  "env_growing = \<lparr> ledgerNow = 10, collateralOracle = (\<lambda>a. None), debtOracle = (\<lambda>a. None),
     growth = (\<lambda>r dt. (500000000, 0)) \<rparr>"

text \<open>
  Modelled from the spec: the pool after a first deposit of 5,000 by another lender at
  time 5.
\<close>

definition funded_pool :: Pool where
  "funded_pool = snd (projr (deposit (env_at 5) ''bob'' ''USDC'' 5000 usdc_pool))"

section \<open>The guard of the price fetch\<close>

lemma getLatestPrice_no_quote:
  assumes "no_quote (quote_of (fetch (quote_url a ticker)))"
  shows "\<exists>e. getLatestPrice coerce fetch now a ticker = Inl e"
  using assms
  by (auto simp: getLatestPrice_def quote_of_def no_quote_def
           split: fetch_outcome.splits http_body.splits option.splits)

lemma getLatestPrice_Inr:
  assumes "getLatestPrice coerce fetch now a ticker = Inr p"
  shows "\<not> no_quote (quote_of (fetch (quote_url a ticker)))
         \<and> price p = Number coerce (quote_of (fetch (quote_url a ticker)))
         \<and> timestamp p = now"
proof -
  from assms obtain st data c where
    out: "fetch (quote_url a ticker) = Response True st (Parsed data)" and
    c: "get_c data = Some c" and
    ok: "truthy c" "\<not> strict_eq_zero c" and
    p: "p = \<lparr> source = ''Finnhub'', symbol = toUpperCase ticker,
                price = Number coerce c, timestamp = now \<rparr>"
    by (auto simp: getLatestPrice_def
             split: fetch_outcome.splits http_body.splits option.splits if_splits)
  have q: "quote_of (fetch (quote_url a ticker)) = c"
    by (simp add: quote_of_def out c)
  from ok have "\<not> no_quote c"
    by (cases c) (auto simp: no_quote_def)
  with q p show ?thesis by simp
qed

text \<open>
  What the guard of \<open>getLatestPrice\<close> does achieve. If the response carries no quote, a
  \<open>null\<close> quote or the number \<open>0\<close>, the fetch rejects, and so does
  \<open>StockService.getLatestPrice\<close>. If the fetch returns a price, it is the conversion of
  the provider's quote, and a quote that is a number is returned as it is and is not zero.
\<close>

lemma numeric_quote_guard:
  "(no_quote (quote_of (fetch (quote_url a ticker))) \<longrightarrow>
      (\<exists>e. getLatestPrice coerce fetch now a ticker = Inl e) \<and>
      (\<exists>e. stock_getLatestPrice coerce fetch now \<lparr> finnhubAdapter = a \<rparr> ticker = Inl e))
   \<and> (\<forall>p. getLatestPrice coerce fetch now a ticker = Inr p \<longrightarrow>
         \<not> no_quote (quote_of (fetch (quote_url a ticker)))
         \<and> price p = Number coerce (quote_of (fetch (quote_url a ticker)))
         \<and> (\<forall>n. quote_of (fetch (quote_url a ticker)) = Some (JNum n) \<longrightarrow>
                price p = n \<and> n \<noteq> Fin 0 \<and> n \<noteq> NaN))"
proof -
  have A: "\<exists>e. getLatestPrice coerce fetch now a ticker = Inl e"
    if h: "no_quote (quote_of (fetch (quote_url a ticker)))"
    using h by (rule getLatestPrice_no_quote)
  have B: "\<exists>e. stock_getLatestPrice coerce fetch now \<lparr> finnhubAdapter = a \<rparr> ticker = Inl e"
    if h: "no_quote (quote_of (fetch (quote_url a ticker)))"
    using A [OF h] by (simp add: stock_getLatestPrice_def)
  have C: "\<not> no_quote (quote_of (fetch (quote_url a ticker)))
         \<and> price p = Number coerce (quote_of (fetch (quote_url a ticker)))"
    if r: "getLatestPrice coerce fetch now a ticker = Inr p" for p
    using getLatestPrice_Inr [OF r] by simp
  have D: "price p = n \<and> n \<noteq> Fin 0 \<and> n \<noteq> NaN"
    if r: "getLatestPrice coerce fetch now a ticker = Inr p"
      and q: "quote_of (fetch (quote_url a ticker)) = Some (JNum n)" for p n
  proof -
    from getLatestPrice_Inr [OF r] q
    have "price p = n" and nq: "\<not> no_quote (Some (JNum n))" by simp_all
    moreover from r q have "truthy (Some (JNum n))"
      by (auto simp: getLatestPrice_def quote_of_def
               split: fetch_outcome.splits http_body.splits option.splits if_splits)
    then have "n \<noteq> NaN" by auto
    moreover from nq have "n \<noteq> Fin 0" by (simp add: no_quote_def)
    ultimately show ?thesis by simp
  qed
  from A B C D show ?thesis by blast
qed

lemma upper_aapl: "toUpperCase ''aapl'' = ''AAPL''"
  by code_simp

lemma number_of_string_zero: "string_to_number coerce ''0'' = Fin 0"
proof -
  have "trim ''0'' = ''0''" by code_simp
  moreover have "list_all is_digit ''0''" by code_simp
  moreover have "digits_value ''0'' = 0" by code_simp
  ultimately show ?thesis by (simp add: string_to_number_def)
qed

text \<open>
  C3. The guard misses the quotes that are no numbers but convert to zero. For the
  quote \<open>"0"\<close>, a JSON string, \<open>!data.c\<close> is false (the string is not empty) and
  \<open>data.c === 0\<close> is false (a string is not the number), so nothing is thrown and
  \<open>Number("0")\<close>, which is \<open>0\<close>, is returned as the price; the empty array does the same.
  \<open>StockService.getLatestPrice\<close> hands the zero price on. Neither depends on how the
  other strings convert, nor on the time.
\<close>

theorem zero_quote_slips_through:
  "getLatestPrice coerce (quote_response (JStr ''0'')) now finnhub ''aapl''
     = Inr \<lparr> source = ''Finnhub'', symbol = ''AAPL'', price = Fin 0, timestamp = now \<rparr>
   \<and> getLatestPrice coerce (quote_response (JArr [])) now finnhub ''aapl''
     = Inr \<lparr> source = ''Finnhub'', symbol = ''AAPL'', price = Fin 0, timestamp = now \<rparr>
   \<and> stock_getLatestPrice coerce (quote_response (JStr ''0'')) now \<lparr> finnhubAdapter = finnhub \<rparr> ''aapl''
     = Inr \<lparr> source = ''Finnhub'', symbol = ''AAPL'', price = Fin 0, timestamp = now \<rparr>"
  by (simp add: stock_getLatestPrice_def getLatestPrice_def quote_response_def upper_aapl
        number_of_string_zero)

theorem zero_quote_slips_through_witness:
  "getLatestPrice (\<lambda>v. NaN) (quote_response (JStr ''0'')) 1700000000000 finnhub ''aapl''
     = Inr \<lparr> source = ''Finnhub'', symbol = ''AAPL'', price = Fin 0, timestamp = 1700000000000 \<rparr>
   \<and> price (projr (stock_getLatestPrice (\<lambda>v. NaN) (quote_response (JArr [])) 1700000000000
                       \<lparr> finnhubAdapter = finnhub \<rparr> ''aapl'')) = Fin 0"
  using zero_quote_slips_through [of "\<lambda>v. NaN" 1700000000000]
  by (simp add: stock_getLatestPrice_def)

section \<open>The publisher is a mock\<close>

lemma retry_Inr: "snd fn = Inr v \<Longrightarrow> retry p fn n = fn"
  by (cases n) simp_all

lemma retry_Inl: "snd fn = Inl e \<Longrightarrow> snd (retry p fn n) = Inl e"
  by (induction n) (simp_all add: Let_def)

lemma retry_no_tx:
  assumes ok: "\<forall>x \<in> set (fst fn). \<not> is_tx_effect x"
  shows "\<forall>x \<in> set (fst (retry p fn n)). \<not> is_tx_effect x"
proof (induction n)
  case 0
  show ?case using ok by simp
next
  case (Suc n)
  show ?case
  proof (cases "snd fn")
    case (Inl e)
    then have eq: "fst (retry p fn (Suc n)) =
        fst fn @ [ConsoleWarn (maxRetries p - Suc n + 1), Sleep (retryDelay p)] @ fst (retry p fn n)"
      by (simp add: Let_def)
    have w: "\<not> is_tx_effect (ConsoleWarn (maxRetries p - Suc n + 1))" "\<not> is_tx_effect (Sleep (retryDelay p))"
      by (simp_all add: is_tx_effect_def)
    show ?thesis
      unfolding eq using ok Suc.IH w by (simp add: ball_Un)
  next
    case (Inr v)
    then have "retry p fn (Suc n) = fn" by simp
    then show ?thesis using ok by simp
  qed
qed

lemma publish_attempt_no_tx: "\<forall>x \<in> set (fst (publish_attempt p params)). \<not> is_tx_effect x"
  by (auto simp: publish_attempt_def is_tx_effect_def split: option.splits)

text \<open>
  C9, as stated, fails: \<open>publishToOracle\<close> does not resolve for every input. With a
  timestamp given in microseconds the time value passed to \<open>Date\<close> is out of range,
  \<open>toISOString\<close> throws in each of the four attempts, and the call rejects with the
  \<open>RangeError\<close>.
\<close>

theorem publishToOracle_rejects:
  "snd (publishToOracle testnet_publisher (tsla_params (Fin 1700000000000000))) = Inl RangeError"
  by (simp add: publishToOracle_def testnet_publisher_def tsla_params_def new_SorobanPublisher_def
       getClient_def publish_attempt_def numeral_3_eq_3 Let_def)

text \<open>
  C9, amended. Whenever the oracle client could be built and the timestamp is a valid
  date, \<open>publishToOracle\<close> resolves with \<open>success = true\<close> and a hash of 64 zeros,
  with a proof or without one. With a timestamp that is no valid date it rejects with
  the \<open>RangeError\<close> after its retries; where the client's import failed it rejects with
  that error at once. In no case does it build, sign or submit a transaction.
\<close>

theorem publishToOracle_mock:
  "(\<forall>c. getClient p = Inr c \<and> valid_time (times1000 (pp_timestamp params)) \<longrightarrow>
      snd (publishToOracle p params) = Inr \<lparr> txHash = replicate 64 (CHR ''0''), success = True \<rparr>)
   \<and> (\<forall>c. getClient p = Inr c \<and> \<not> valid_time (times1000 (pp_timestamp params)) \<longrightarrow>
      snd (publishToOracle p params) = Inl RangeError)
   \<and> (\<forall>e. getClient p = Inl e \<longrightarrow> publishToOracle p params = ([], Inl e))
   \<and> (\<forall>x \<in> set (fst (publishToOracle p params)). \<not> is_tx_effect x)"
proof -
  have A: "snd (publishToOracle p params) = Inr \<lparr> txHash = replicate 64 (CHR ''0''), success = True \<rparr>"
    if "getClient p = Inr c" "valid_time (times1000 (pp_timestamp params))" for c
  proof -
    have "snd (publish_attempt p params) = Inr \<lparr> txHash = replicate 64 (CHR ''0''), success = True \<rparr>"
      using that by (simp add: publish_attempt_def)
    from retry_Inr [OF this] this that show ?thesis
      by (simp add: publishToOracle_def)
  qed
  have B: "snd (publishToOracle p params) = Inl RangeError"
    if "getClient p = Inr c" "\<not> valid_time (times1000 (pp_timestamp params))" for c
  proof -
    have "snd (publish_attempt p params) = Inl RangeError"
      using that by (simp add: publish_attempt_def)
    from retry_Inl [OF this] that show ?thesis
      by (simp add: publishToOracle_def)
  qed
  have C: "publishToOracle p params = ([], Inl e)" if "getClient p = Inl e" for e
    using that by (simp add: publishToOracle_def)
  have D: "\<forall>x \<in> set (fst (publishToOracle p params)). \<not> is_tx_effect x"
    using retry_no_tx [OF publish_attempt_no_tx]
    by (auto simp: publishToOracle_def split: sum.splits)
  from A B C D show ?thesis by blast
qed

theorem publishToOracle_mock_witness:
  "snd (publishToOracle testnet_publisher (tsla_params (Fin 1700000000)))
     = Inr \<lparr> txHash = replicate 64 (CHR ''0''), success = True \<rparr>
   \<and> list_all (\<lambda>x. \<not> is_tx_effect x) (fst (publishToOracle testnet_publisher (tsla_params (Fin 1700000000))))"
proof -
  have c: "getClient testnet_publisher = Inr \<lparr> oc_contractId = ''CAY3'',
      oc_rpcUrl = ''https://soroban-testnet.stellar.org'', oc_networkPassphrase = TESTNET \<rparr>"
    by (simp add: getClient_def testnet_publisher_def new_SorobanPublisher_def Let_def)
  have v: "valid_time (times1000 (pp_timestamp (tsla_params (Fin 1700000000))))"
    by (simp add: tsla_params_def)
  note m = publishToOracle_mock [of testnet_publisher "tsla_params (Fin 1700000000)"]
  from m c v have r: "snd (publishToOracle testnet_publisher (tsla_params (Fin 1700000000)))
     = Inr \<lparr> txHash = replicate 64 (CHR ''0''), success = True \<rparr>"
    by blast
  from m have "\<forall>x \<in> set (fst (publishToOracle testnet_publisher (tsla_params (Fin 1700000000)))).
      \<not> is_tx_effect x"
    by blast
  then have "list_all (\<lambda>x. \<not> is_tx_effect x)
      (fst (publishToOracle testnet_publisher (tsla_params (Fin 1700000000))))"
    unfolding list_all_iff .
  with r show ?thesis by (rule conjI)
qed

section \<open>The storage service without Redis\<close>

lemma onModuleInit_unset:
  assumes "cfg ''REDIS_URL'' = None"
  shows "onModuleInit cfg svc srv = (svc\<lparr> opts := Some (resolveOptions cfg) \<rparr>, srv)"
  using assms by (simp add: onModuleInit_def resolveOptions_def or_default_def Let_def)

lemma invoke_noop:
  assumes "ss_client svc = None"
  shows "invoke codec el svc srv c = (Inr (safe_empty c), svc, srv)"
  using assms
  by (cases c)
     (simp_all add: lift_reply_def storePrice_def storage_getLatestPrice_def getPriceHistory_def
        storePriceBatch_def getLatestPriceBatch_def getTrackedSymbols_def deleteSymbol_def)

lemma run_noop:
  assumes "ss_client svc = None"
  shows "run codec el svc srv cs = (map (\<lambda>c. Inr (safe_empty c)) cs, svc, srv)"
  using assms by (induction cs) (simp_all add: invoke_noop Let_def)

text \<open>
  C10. With \<open>REDIS_URL\<close> not configured, \<open>onModuleInit\<close> opens no connection and leaves
  the client unset. From then on every sequence of calls of the public methods returns,
  call by call, without an error and with the empty value of the method (nothing for
  \<open>storePrice\<close>, \<open>storePriceBatch\<close> and \<open>deleteSymbol\<close>, \<open>null\<close> for \<open>getLatestPrice\<close>, an
  empty array for \<open>getPriceHistory\<close> and \<open>getTrackedSymbols\<close>, an empty map for
  \<open>getLatestPriceBatch\<close>), and leaves the service and the server as they were; so does
  \<open>onModuleDestroy\<close>.
\<close>

theorem storage_noop:
  assumes "cfg ''REDIS_URL'' = None"
  shows "snd (onModuleInit cfg (new_StorageService m) srv) = srv
    \<and> ss_client (fst (onModuleInit cfg (new_StorageService m) srv)) = None
    \<and> run codec el (fst (onModuleInit cfg (new_StorageService m) srv)) srv cs
        = (map (\<lambda>c. Inr (safe_empty c)) cs, fst (onModuleInit cfg (new_StorageService m) srv), srv)
    \<and> onModuleDestroy (fst (onModuleInit cfg (new_StorageService m) srv)) srv
        = (fst (onModuleInit cfg (new_StorageService m) srv), srv)"
proof -
  let ?svc = "fst (onModuleInit cfg (new_StorageService m) srv)"
  have i: "onModuleInit cfg (new_StorageService m) srv
      = ((new_StorageService m)\<lparr> opts := Some (resolveOptions cfg) \<rparr>, srv)"
    using assms by (rule onModuleInit_unset)
  then have c: "ss_client ?svc = None"
    by (simp add: new_StorageService_def)
  from i have s: "snd (onModuleInit cfg (new_StorageService m) srv) = srv" by simp
  from c have d: "onModuleDestroy ?svc srv = (?svc, srv)"
    by (simp add: onModuleDestroy_def)
  from s c run_noop [OF c] d show ?thesis by blast
qed


theorem storage_noop_witness:
  "configGetFn None ''REDIS_URL'' = None
   \<and> snd (buildService None no_server) = no_server
   \<and> ss_client (fst (buildService None no_server)) = None
   \<and> fst (run no_codec 3 (fst (buildService None no_server)) no_server
             [StorePrice (makeMockAggregatedPrice ''AAPL''), GetLatestPrice ''AAPL'',
              GetPriceHistory ''AAPL'' 0 None None, StorePriceBatch [makeMockAggregatedPrice ''MSFT''],
              GetTrackedSymbols, DeleteSymbol ''AAPL''])
       = [Inr Done, Inr (Price None), Inr (History []), Inr Done, Inr (Symbols []), Inr Done]"
proof -
  have h: "configGetFn None ''REDIS_URL'' = None"
    by (simp add: configGetFn_def)
  have b: "onModuleInit (configGetFn None) (new_StorageService None) no_server
      = buildService None no_server"
    by (simp only: buildService_def)
  note w = storage_noop [where cfg = "configGetFn None" and m = None and srv = no_server
      and codec = no_codec and el = 3 and cs =
      "[StorePrice (makeMockAggregatedPrice ''AAPL''), GetLatestPrice ''AAPL'',
        GetPriceHistory ''AAPL'' 0 None None, StorePriceBatch [makeMockAggregatedPrice ''MSFT''],
        GetTrackedSymbols, DeleteSymbol ''AAPL'']", OF h, unfolded b]
  have r: "fst (run no_codec 3 (fst (buildService None no_server)) no_server
             [StorePrice (makeMockAggregatedPrice ''AAPL''), GetLatestPrice ''AAPL'',
              GetPriceHistory ''AAPL'' 0 None None, StorePriceBatch [makeMockAggregatedPrice ''MSFT''],
              GetTrackedSymbols, DeleteSymbol ''AAPL''])
       = [Inr Done, Inr (Price None), Inr (History []), Inr Done, Inr (Symbols []), Inr Done]"
    by (simp only: w [THEN conjunct2, THEN conjunct2, THEN conjunct1] fst_conv list.map safe_empty.simps)
  from h w [THEN conjunct1] w [THEN conjunct2, THEN conjunct1] r
  show ?thesis by (intro conjI)
qed

text \<open>With a URL the service does connect, and a stored price is on the server.\<close>

lemma buildService_connects:
  "connections (snd (buildService (Some ''redis://localhost:6379'') no_server))
     = [''redis://localhost:6379'']"
  by (simp add: buildService_def onModuleInit_def resolveOptions_def or_default_def configGetFn_def
       connect_def new_StorageService_def no_server_def Let_def)

section \<open>The lending pool: round trip and backstop time gate\<close>

lemma accrue_totals:
  "totalDeposited (accrue env r) = totalDeposited r" "totalBorrowed (accrue env r) = totalBorrowed r"
  by (simp_all add: accrue_def Let_def)

lemma accrue_rates:
  "bTokenRate r \<le> bTokenRate (accrue env r)" "dTokenRate r \<le> dTokenRate (accrue env r)"
  by (simp_all add: accrue_def Let_def)

lemma accrue_again: "ledgerNow env \<le> lastAccrual r \<Longrightarrow> accrue env r = r"
  by (simp add: accrue_def)

lemma accrue_last: "ledgerNow env \<le> lastAccrual (accrue env r)"
  by (simp add: accrue_def Let_def)

lemma round_down_nonneg: "0 \<le> a \<Longrightarrow> 0 < b \<Longrightarrow> 0 \<le> div_round RoundDown a b"
  by (simp add: div_round_def pos_imp_zdiv_nonneg_iff)

lemma round_up_nonneg: "0 \<le> a \<Longrightarrow> 0 < b \<Longrightarrow> 0 \<le> div_round RoundUp a b"
proof -
  assume a: "0 \<le> a" and b: "0 < b"
  then have "(- a) div b \<le> 0"
    by (simp add: div_nonpos_pos_le0)
  then show ?thesis by (simp add: div_round_def)
qed

lemma round_trip_le:
  assumes "0 < one" "0 < rate"
  shows "toUnderlying one RoundDown (toShares one RoundDown x rate) rate \<le> x"
proof -
  have "(x * one) div rate * rate \<le> x * one"
    using pos_mod_sign [OF assms(2), of "x * one"] div_mult_mod_eq [of "x * one" rate]
    by linarith
  then have "((x * one) div rate * rate) div one \<le> (x * one) div one"
    using assms(1) by (rule zdiv_mono1)
  then show ?thesis
    using assms(1) by (simp add: toUnderlying_def toShares_def div_round_def)
qed

lemma solvent_upd:
  assumes "solvent p" "reserves p' = (reserves p)(a \<mapsto> r')" "totalBorrowed r' \<le> totalDeposited r'"
  shows "solvent p'"
  using assms by (auto simp: solvent_def)

lemma solvent_same:
  assumes "solvent p" "reserves p' = reserves p"
  shows "solvent p'"
  using assms by (simp add: solvent_def)

lemma rates_upd:
  assumes "rates_ok p" "rateOne p' = rateOne p" "reserves p' = (reserves p)(a \<mapsto> r')"
    "rateOne p \<le> bTokenRate r'" "rateOne p \<le> dTokenRate r'"
  shows "rates_ok p'"
  using assms by (auto simp: rates_ok_def)

lemma rates_same:
  assumes "rates_ok p" "rateOne p' = rateOne p" "reserves p' = reserves p"
  shows "rates_ok p'"
  using assms by (simp add: rates_ok_def)

lemma balances_upd:
  assumes "balances_ok p" "positions p' = (positions p)(u := pos')"
    "\<forall>a. 0 \<le> bTokenBalance pos' a"
  shows "balances_ok p'"
  using assms by (auto simp: balances_ok_def)

lemma balances_same:
  assumes "balances_ok p" "positions p' = positions p"
  shows "balances_ok p'"
  using assms by (simp add: balances_ok_def)

lemma accrued_rates:
  assumes "rates_ok p" "reserves p a = Some r0"
  shows "rateOne p \<le> bTokenRate (accrue env r0)" "rateOne p \<le> dTokenRate (accrue env r0)"
    "0 < bTokenRate (accrue env r0)" "0 < dTokenRate (accrue env r0)"
proof -
  from assms have o: "0 < rateOne p" and b: "rateOne p \<le> bTokenRate r0" and d: "rateOne p \<le> dTokenRate r0"
    by (auto simp: rates_ok_def)
  from b accrue_rates(1) [of r0 env] show "rateOne p \<le> bTokenRate (accrue env r0)" by linarith
  from d accrue_rates(2) [of r0 env] show "rateOne p \<le> dTokenRate (accrue env r0)" by linarith
  from o b accrue_rates(1) [of r0 env] show "0 < bTokenRate (accrue env r0)" by linarith
  from o d accrue_rates(2) [of r0 env] show "0 < dTokenRate (accrue env r0)" by linarith
qed

lemma rates_ok_one: "rates_ok p \<Longrightarrow> 0 < rateOne p"
  by (simp add: rates_ok_def)

lemma deposit_Inr:
  assumes "deposit env u a x p = Inr (k, p')"
  obtains r0 where "0 < x" "reserves p a = Some r0"
    "k = toShares (rateOne p) RoundDown x (bTokenRate (accrue env r0))"
    "p' = p\<lparr> reserves := (reserves p)(a \<mapsto> (accrue env r0)\<lparr> totalDeposited := totalDeposited (accrue env r0) + x \<rparr>),
              positions := (positions p)(u := (positions p u)\<lparr> bTokenBalance :=
                 (bTokenBalance (positions p u))(a := bTokenBalance (positions p u) a + k) \<rparr>) \<rparr>"
  using assms by (auto simp: deposit_def Let_def split: if_splits option.splits)

lemma deposit_inv:
  assumes i: "pool_inv p" and d: "deposit env u a x p = Inr (k, p')"
  shows "pool_inv p'"
proof -
  from d obtain r0 where x: "0 < x" and r0: "reserves p a = Some r0"
    and k: "k = toShares (rateOne p) RoundDown x (bTokenRate (accrue env r0))"
    and p': "p' = p\<lparr> reserves := (reserves p)(a \<mapsto> (accrue env r0)\<lparr> totalDeposited := totalDeposited (accrue env r0) + x \<rparr>),
              positions := (positions p)(u := (positions p u)\<lparr> bTokenBalance :=
                 (bTokenBalance (positions p u))(a := bTokenBalance (positions p u) a + k) \<rparr>) \<rparr>"
    by (rule deposit_Inr)
  from i have s: "solvent p" and r: "rates_ok p" and b: "balances_ok p"
    by (simp_all add: pool_inv_def)
  note ar = accrued_rates [OF r r0, of env]
  let ?r1 = "(accrue env r0)\<lparr> totalDeposited := totalDeposited (accrue env r0) + x \<rparr>"
  have rs: "reserves p' = (reserves p)(a \<mapsto> ?r1)" and one: "rateOne p' = rateOne p"
    by (simp_all add: p')
  from s r0 have "totalBorrowed r0 \<le> totalDeposited r0" by (simp add: solvent_def)
  with x have "totalBorrowed ?r1 \<le> totalDeposited ?r1"
    by (simp add: accrue_totals)
  with s rs have 1: "solvent p'" by (rule solvent_upd)
  have 2: "rates_ok p'"
    using r one rs by (rule rates_upd) (simp_all add: ar)
  have "0 \<le> k" unfolding k toShares_def
    using x ar rates_ok_one [OF r] by (intro round_down_nonneg) simp_all
  have ps: "positions p' = (positions p)(u := (positions p u)\<lparr> bTokenBalance :=
                 (bTokenBalance (positions p u))(a := bTokenBalance (positions p u) a + k) \<rparr>)"
    by (simp add: p')
  have "0 \<le> bTokenBalance (positions p u) c" for c
    using b by (simp add: balances_ok_def)
  with \<open>0 \<le> k\<close> have "\<forall>c. 0 \<le> bTokenBalance ((positions p u)\<lparr> bTokenBalance :=
                 (bTokenBalance (positions p u))(a := bTokenBalance (positions p u) a + k) \<rparr>) c"
    by simp
  with b ps have 3: "balances_ok p'" by (rule balances_upd)
  from 1 2 3 show ?thesis by (simp add: pool_inv_def)
qed

lemma inv_upd:
  assumes i: "pool_inv p" and o: "rateOne p' = rateOne p"
    and rs: "reserves p' = reserves p \<or>
       (\<exists>a r'. reserves p' = (reserves p)(a \<mapsto> r') \<and> totalBorrowed r' \<le> totalDeposited r'
          \<and> rateOne p \<le> bTokenRate r' \<and> rateOne p \<le> dTokenRate r')"
    and ps: "positions p' = positions p \<or>
       (\<exists>u pos'. positions p' = (positions p)(u := pos') \<and> (\<forall>c. 0 \<le> bTokenBalance pos' c))"
  shows "pool_inv p'"
proof -
  from i have s: "solvent p" and r: "rates_ok p" and b: "balances_ok p"
    by (simp_all add: pool_inv_def)
  from rs have 1: "solvent p'"
  proof
    assume "reserves p' = reserves p"
    with s show ?thesis by (rule solvent_same)
  next
    assume "\<exists>a r'. reserves p' = (reserves p)(a \<mapsto> r') \<and> totalBorrowed r' \<le> totalDeposited r'
          \<and> rateOne p \<le> bTokenRate r' \<and> rateOne p \<le> dTokenRate r'"
    then obtain a r' where "reserves p' = (reserves p)(a \<mapsto> r')" "totalBorrowed r' \<le> totalDeposited r'"
      by blast
    with s show ?thesis by (rule solvent_upd)
  qed
  from rs have 2: "rates_ok p'"
  proof
    assume "reserves p' = reserves p"
    with r o show ?thesis by (rule rates_same)
  next
    assume "\<exists>a r'. reserves p' = (reserves p)(a \<mapsto> r') \<and> totalBorrowed r' \<le> totalDeposited r'
          \<and> rateOne p \<le> bTokenRate r' \<and> rateOne p \<le> dTokenRate r'"
    then obtain a r' where "reserves p' = (reserves p)(a \<mapsto> r')"
      "rateOne p \<le> bTokenRate r'" "rateOne p \<le> dTokenRate r'"
      by blast
    with r o show ?thesis by (rule rates_upd)
  qed
  from ps have 3: "balances_ok p'"
  proof
    assume "positions p' = positions p"
    with b show ?thesis by (rule balances_same)
  next
    assume "\<exists>u pos'. positions p' = (positions p)(u := pos') \<and> (\<forall>c. 0 \<le> bTokenBalance pos' c)"
    then obtain u pos' where "positions p' = (positions p)(u := pos')" "\<forall>c. 0 \<le> bTokenBalance pos' c"
      by blast
    with b show ?thesis by (rule balances_upd)
  qed
  from 1 2 3 show ?thesis by (simp add: pool_inv_def)
qed

lemma inv_facts:
  assumes "pool_inv p" "reserves p a = Some r0"
  shows "totalBorrowed r0 \<le> totalDeposited r0" "rateOne p \<le> bTokenRate r0" "rateOne p \<le> dTokenRate r0"
    "0 < rateOne p" "0 \<le> bTokenBalance (positions p u) c"
  using assms by (auto simp: pool_inv_def solvent_def rates_ok_def balances_ok_def)

lemma withdraw_Inr:
  assumes "withdraw env u a k p = Inr (out, p')"
  obtains r0 where "0 < k" "reserves p a = Some r0"
    "out = toUnderlying (rateOne p) RoundDown k (bTokenRate (accrue env r0))"
    "k \<le> bTokenBalance (positions p u) a"
    "totalBorrowed (accrue env r0) \<le> totalDeposited (accrue env r0) - out"
    "p' = p\<lparr> reserves := (reserves p)(a \<mapsto> (accrue env r0)\<lparr> totalDeposited := totalDeposited (accrue env r0) - out \<rparr>),
              positions := (positions p)(u := (positions p u)\<lparr> bTokenBalance :=
                 (bTokenBalance (positions p u))(a := bTokenBalance (positions p u) a - k) \<rparr>) \<rparr>"
  using assms by (auto simp: withdraw_def Let_def split: if_splits option.splits)

lemma withdraw_inv:
  assumes i: "pool_inv p" and d: "withdraw env u a k p = Inr (out, p')"
  shows "pool_inv p'"
proof -
  from d obtain r0 where k: "0 < k" and r0: "reserves p a = Some r0"
    and bal: "k \<le> bTokenBalance (positions p u) a"
    and liq: "totalBorrowed (accrue env r0) \<le> totalDeposited (accrue env r0) - out"
    and p': "p' = p\<lparr> reserves := (reserves p)(a \<mapsto> (accrue env r0)\<lparr> totalDeposited := totalDeposited (accrue env r0) - out \<rparr>),
              positions := (positions p)(u := (positions p u)\<lparr> bTokenBalance :=
                 (bTokenBalance (positions p u))(a := bTokenBalance (positions p u) a - k) \<rparr>) \<rparr>"
    by (rule withdraw_Inr)
  from i have r: "rates_ok p" by (simp add: pool_inv_def)
  note ar = accrued_rates [OF r r0, of env]
  let ?r1 = "(accrue env r0)\<lparr> totalDeposited := totalDeposited (accrue env r0) - out \<rparr>"
  let ?pos = "(positions p u)\<lparr> bTokenBalance :=
                 (bTokenBalance (positions p u))(a := bTokenBalance (positions p u) a - k) \<rparr>"
  have 1: "reserves p' = (reserves p)(a \<mapsto> ?r1) \<and> totalBorrowed ?r1 \<le> totalDeposited ?r1
      \<and> rateOne p \<le> bTokenRate ?r1 \<and> rateOne p \<le> dTokenRate ?r1"
    using liq ar by (simp add: p')
  have "0 \<le> bTokenBalance ?pos c" for c
    using bal inv_facts(5) [OF i r0, of u c] by simp
  then have 2: "positions p' = (positions p)(u := ?pos) \<and> (\<forall>c. 0 \<le> bTokenBalance ?pos c)"
    by (simp add: p')
  show ?thesis
    by (rule inv_upd [OF i]) (use 1 2 in \<open>simp add: p'\<close>, use 1 in blast, use 2 in blast)
qed

lemma borrow_Inr:
  assumes "borrow env u a x p = Inr (out, p')"
  obtains r0 where "0 < x" "reserves p a = Some r0"
    "totalBorrowed (accrue env r0) + x \<le> totalDeposited (accrue env r0)"
    "p' = p\<lparr> reserves := (reserves p)(a \<mapsto> (accrue env r0)\<lparr> totalBorrowed := totalBorrowed (accrue env r0) + x \<rparr>),
              positions := (positions p)(u := (positions p u)\<lparr> debtAsset := Some a,
                 dTokenBalance := dTokenBalance (positions p u)
                    + toShares (rateOne p) RoundUp x (dTokenRate (accrue env r0)) \<rparr>) \<rparr>"
  using assms by (auto simp: borrow_def Let_def split: if_splits option.splits)

lemma borrow_inv:
  assumes i: "pool_inv p" and d: "borrow env u a x p = Inr (out, p')"
  shows "pool_inv p'"
proof -
  define pos' where "pos' = (positions p u)\<lparr> debtAsset := Some a,
                 dTokenBalance := dTokenBalance (positions p u)
                    + toShares (rateOne p) RoundUp x (dTokenRate (accrue env (the (reserves p a)))) \<rparr>"
  from d obtain r0 where r0: "reserves p a = Some r0"
    and liq: "totalBorrowed (accrue env r0) + x \<le> totalDeposited (accrue env r0)"
    and p': "p' = p\<lparr> reserves := (reserves p)(a \<mapsto> (accrue env r0)\<lparr> totalBorrowed := totalBorrowed (accrue env r0) + x \<rparr>),
              positions := (positions p)(u := pos') \<rparr>"
    unfolding pos'_def by (rule borrow_Inr) simp
  have bal: "bTokenBalance pos' = bTokenBalance (positions p u)"
    by (simp add: pos'_def)
  from i have r: "rates_ok p" by (simp add: pool_inv_def)
  note ar = accrued_rates [OF r r0, of env]
  let ?r1 = "(accrue env r0)\<lparr> totalBorrowed := totalBorrowed (accrue env r0) + x \<rparr>"
  have 1: "reserves p' = (reserves p)(a \<mapsto> ?r1) \<and> totalBorrowed ?r1 \<le> totalDeposited ?r1
      \<and> rateOne p \<le> bTokenRate ?r1 \<and> rateOne p \<le> dTokenRate ?r1"
    using liq ar by (simp add: p')
  have "0 \<le> bTokenBalance pos' c" for c
    using inv_facts(5) [OF i r0, of u c] by (simp add: bal)
  then have 2: "positions p' = (positions p)(u := pos') \<and> (\<forall>c. 0 \<le> bTokenBalance pos' c)"
    by (simp add: p')
  show ?thesis
    by (rule inv_upd [OF i]) (use 1 2 in \<open>simp add: p'\<close>, use 1 in blast, use 2 in blast)
qed

lemma repay_Inr:
  assumes "repay env u a k p = Inr (out, p')"
  obtains r0 where "0 < k" "reserves p a = Some r0"
    "out = toUnderlying (rateOne p) RoundUp k (dTokenRate (accrue env r0))"
    "p' = p\<lparr> reserves := (reserves p)(a \<mapsto> (accrue env r0)\<lparr> totalBorrowed := totalBorrowed (accrue env r0) - out \<rparr>),
              positions := (positions p)(u := (positions p u)\<lparr> dTokenBalance := dTokenBalance (positions p u) - k,
                 debtAsset := (if dTokenBalance (positions p u) - k = 0 then None else Some a) \<rparr>) \<rparr>"
  using assms by (auto simp: repay_def Let_def split: if_splits option.splits)

lemma repay_inv:
  assumes i: "pool_inv p" and d: "repay env u a k p = Inr (out, p')"
  shows "pool_inv p'"
proof -
  define pos' where "pos' = (positions p u)\<lparr> dTokenBalance := dTokenBalance (positions p u) - k,
                 debtAsset := (if dTokenBalance (positions p u) - k = 0 then None else Some a) \<rparr>"
  from d obtain r0 where k: "0 < k" and r0: "reserves p a = Some r0"
    and out: "out = toUnderlying (rateOne p) RoundUp k (dTokenRate (accrue env r0))"
    and p': "p' = p\<lparr> reserves := (reserves p)(a \<mapsto> (accrue env r0)\<lparr> totalBorrowed := totalBorrowed (accrue env r0) - out \<rparr>),
              positions := (positions p)(u := pos') \<rparr>"
    unfolding pos'_def by (rule repay_Inr)
  have bal: "bTokenBalance pos' = bTokenBalance (positions p u)"
    by (simp add: pos'_def)
  from i have r: "rates_ok p" by (simp add: pool_inv_def)
  note ar = accrued_rates [OF r r0, of env]
  have "0 \<le> k * dTokenRate (accrue env r0)"
    using k ar(4) by simp
  then have o: "0 \<le> out"
    unfolding out toUnderlying_def using rates_ok_one [OF r] by (rule round_up_nonneg)
  let ?r1 = "(accrue env r0)\<lparr> totalBorrowed := totalBorrowed (accrue env r0) - out \<rparr>"
  have 1: "reserves p' = (reserves p)(a \<mapsto> ?r1) \<and> totalBorrowed ?r1 \<le> totalDeposited ?r1
      \<and> rateOne p \<le> bTokenRate ?r1 \<and> rateOne p \<le> dTokenRate ?r1"
    using o ar inv_facts(1) [OF i r0] by (simp add: p' accrue_totals)
  have "0 \<le> bTokenBalance pos' c" for c
    using inv_facts(5) [OF i r0, of u c] by (simp add: bal)
  then have 2: "positions p' = (positions p)(u := pos') \<and> (\<forall>c. 0 \<le> bTokenBalance pos' c)"
    by (simp add: p')
  show ?thesis
    by (rule inv_upd [OF i]) (use 1 2 in \<open>simp add: p'\<close>, use 1 in blast, use 2 in blast)
qed

lemma balances_pos: "pool_inv p \<Longrightarrow> 0 \<le> bTokenBalance (positions p u) c"
  by (simp add: pool_inv_def balances_ok_def)

lemma add_collateral_inv:
  assumes i: "pool_inv p" and d: "add_collateral u tok x p = Inr (out, p')"
  shows "pool_inv p'"
proof -
  let ?pos = "(positions p u)\<lparr> collateral := (collateral (positions p u))(tok := collateral (positions p u) tok + x) \<rparr>"
  from d have p': "p' = p\<lparr> positions := (positions p)(u := ?pos) \<rparr>"
    by (auto simp: add_collateral_def Let_def split: if_splits)
  have 2: "positions p' = (positions p)(u := ?pos) \<and> (\<forall>c. 0 \<le> bTokenBalance ?pos c)"
    using balances_pos [OF i, of u] by (simp add: p')
  show ?thesis
    by (rule inv_upd [OF i]) (simp add: p', simp add: p', use 2 in blast)
qed

lemma remove_collateral_inv:
  assumes i: "pool_inv p" and d: "remove_collateral env u tok x p = Inr (out, p')"
  shows "pool_inv p'"
proof -
  let ?pos = "(positions p u)\<lparr> collateral := (collateral (positions p u))(tok := collateral (positions p u) tok - x) \<rparr>"
  from d have p': "p' = p\<lparr> positions := (positions p)(u := ?pos) \<rparr>"
    by (auto simp: remove_collateral_def Let_def split: if_splits option.splits)
  have 2: "positions p' = (positions p)(u := ?pos) \<and> (\<forall>c. 0 \<le> bTokenBalance ?pos c)"
    using balances_pos [OF i, of u] by (simp add: p')
  show ?thesis
    by (rule inv_upd [OF i]) (simp add: p', simp add: p', use 2 in blast)
qed

lemma write_down_Inr:
  assumes "write_down a x p = Inr (out, p')"
  obtains r0 fl where "0 < x" "reserves p a = Some r0" "rateOne p' = rateOne p" "positions p' = positions p"
    "reserves p' = (reserves p)(a \<mapsto> r0\<lparr> totalBorrowed := totalBorrowed r0 - x, unrecoverableLoss := fl \<rparr>)"
  using assms by (auto simp: write_down_def Let_def split: if_splits option.splits)

lemma write_down_inv:
  assumes i: "pool_inv p" and d: "write_down a x p = Inr (out, p')"
  shows "pool_inv p'"
proof -
  from d obtain r0 fl where x: "0 < x" and r0: "reserves p a = Some r0"
    and o: "rateOne p' = rateOne p" and ps: "positions p' = positions p"
    and rs: "reserves p' = (reserves p)(a \<mapsto> r0\<lparr> totalBorrowed := totalBorrowed r0 - x, unrecoverableLoss := fl \<rparr>)"
    by (rule write_down_Inr)
  let ?r1 = "r0\<lparr> totalBorrowed := totalBorrowed r0 - x, unrecoverableLoss := fl \<rparr>"
  have 1: "reserves p' = (reserves p)(a \<mapsto> ?r1) \<and> totalBorrowed ?r1 \<le> totalDeposited ?r1
      \<and> rateOne p \<le> bTokenRate ?r1 \<and> rateOne p \<le> dTokenRate ?r1"
    using x inv_facts(1-3) [OF i r0] rs by simp
  show ?thesis
    by (rule inv_upd [OF i o]) (use 1 in blast, simp add: ps)
qed

lemma backstop_ops_inv:
  assumes i: "pool_inv p"
  shows "backstop_deposit u x p = Inr (out, p') \<Longrightarrow> pool_inv p'"
    "initiate_backstop_withdrawal env u x p = Inr (out, p') \<Longrightarrow> pool_inv p'"
    "complete_backstop_withdrawal env u p = Inr (out, p') \<Longrightarrow> pool_inv p'"
proof -
  assume "backstop_deposit u x p = Inr (out, p')"
  then have "rateOne p' = rateOne p \<and> reserves p' = reserves p \<and> positions p' = positions p"
    by (auto simp: backstop_deposit_def Let_def split: if_splits)
  then show "pool_inv p'" by (intro inv_upd [OF i]) simp_all
next
  assume "initiate_backstop_withdrawal env u x p = Inr (out, p')"
  then have "rateOne p' = rateOne p \<and> reserves p' = reserves p \<and> positions p' = positions p"
    by (auto simp: initiate_backstop_withdrawal_def split: if_splits)
  then show "pool_inv p'" by (intro inv_upd [OF i]) simp_all
next
  assume "complete_backstop_withdrawal env u p = Inr (out, p')"
  then have "rateOne p' = rateOne p \<and> reserves p' = reserves p \<and> positions p' = positions p"
    by (auto simp: complete_backstop_withdrawal_def Let_def split: if_splits option.splits)
  then show "pool_inv p'" by (intro inv_upd [OF i]) simp_all
qed

lemma apply_op_inv:
  assumes i: "pool_inv p" and d: "apply_op env u opn p = Inr (out, p')"
  shows "pool_inv p'"
proof (cases opn)
  case (Deposit a x) with i d show ?thesis by (auto intro: deposit_inv)
next
  case (Withdraw a x) with i d show ?thesis by (auto intro: withdraw_inv)
next
  case (AddCollateral a x) with i d show ?thesis by (auto intro: add_collateral_inv)
next
  case (RemoveCollateral a x) with i d show ?thesis by (auto intro: remove_collateral_inv)
next
  case (Borrow a x) with i d show ?thesis by (auto intro: borrow_inv)
next
  case (Repay a x) with i d show ?thesis by (auto intro: repay_inv)
next
  case (WriteDown a x) with i d show ?thesis by (auto intro: write_down_inv)
next
  case (BackstopDeposit x) with i d show ?thesis by (auto intro: backstop_ops_inv(1))
next
  case (InitiateBackstopWithdrawal x) with i d show ?thesis by (auto intro: backstop_ops_inv(2))
next
  case CompleteBackstopWithdrawal with i d show ?thesis by (auto intro: backstop_ops_inv(3))
qed

lemma new_pool_inv: "0 < one \<Longrightarrow> pool_inv (new_pool one t supported rwas cf threshold)"
  by (simp add: pool_inv_def solvent_def rates_ok_def balances_ok_def new_pool_def new_reserve_def
        empty_position_def)

lemma reachable_inv:
  assumes "reachable p0 p" "pool_inv p0"
  shows "pool_inv p"
  using assms by (induction rule: reachable.induct) (auto intro: apply_op_inv)

lemma usdc_pool_start: "reachable (new_pool 1000000000 0 [''USDC''] [''NVDA''] (\<lambda>a. 8000) 0) usdc_pool"
  unfolding usdc_pool_def by (rule reachable.start)

lemma round_trip_loss:
  assumes "0 < one" "0 < rate"
  shows "x * one < toUnderlying one RoundDown (toShares one RoundDown x rate) rate * one + rate + one"
proof -
  define k where "k = (x * one) div rate"
  define out where "out = (k * rate) div one"
  have "x * one = k * rate + (x * one) mod rate"
    unfolding k_def by simp
  moreover have "(x * one) mod rate < rate"
    using assms(2) by (rule pos_mod_bound)
  moreover have "k * rate = out * one + (k * rate) mod one"
    unfolding out_def by simp
  moreover have "(k * rate) mod one < one"
    using assms(1) by (rule pos_mod_bound)
  ultimately have "x * one < out * one + rate + one" by linarith
  then show ?thesis
    by (simp add: toUnderlying_def toShares_def div_round_def k_def out_def)
qed

lemma round_trip_exact:
  assumes "0 < one"
  shows "toShares one RoundDown x one = x" "toUnderlying one RoundDown x one = x"
  using assms by (simp_all add: toUnderlying_def toShares_def div_round_def)

lemma no_share_small:
  assumes "0 < rate" "0 \<le> x * one" "toShares one RoundDown x rate = 0"
  shows "x * one < rate"
proof -
  from assms(3) have "(x * one) div rate = 0" by (simp add: toShares_def div_round_def)
  then have "x * one = (x * one) mod rate" 
    using div_mult_mod_eq [of "x * one" rate] by simp
  with pos_mod_bound [OF assms(1), of "x * one"] show ?thesis by simp
qed

lemma funded_pool_start: "reachable (new_pool 1000000000 0 [''USDC''] [''NVDA''] (\<lambda>a. 8000) 0) funded_pool"
proof -
  have "\<exists>p1. deposit (env_at 5) ''bob'' ''USDC'' 5000 usdc_pool = Inr (5000, p1)"
    by (simp add: deposit_def usdc_pool_def new_pool_def env_at_def accrue_def new_reserve_def
        toShares_def div_round_def Let_def)
  then obtain p1 where d: "deposit (env_at 5) ''bob'' ''USDC'' 5000 usdc_pool = Inr (5000, p1)"
    by blast
  then have "apply_op (env_at 5) ''bob'' (Deposit ''USDC'' 5000) usdc_pool = Inr (5000, funded_pool)"
    by (simp add: funded_pool_def)
  with usdc_pool_start show ?thesis by (rule reachable.step)
qed

lemma funded_reserve:
  "reserves funded_pool ''USDC'' = Some \<lparr> totalDeposited = 5000, totalBorrowed = 0,
     bTokenRate = 1000000000, dTokenRate = 1000000000, lastAccrual = 5, unrecoverableLoss = False \<rparr>"
  "rateOne funded_pool = 1000000000"
  by (simp_all add: funded_pool_def deposit_def usdc_pool_def new_pool_def env_at_def accrue_def new_reserve_def
        toShares_def div_round_def Let_def)

lemma funded_alice: "bTokenBalance (positions funded_pool ''alice'') ''USDC'' = 0"
  by (simp add: funded_pool_def deposit_def usdc_pool_def new_pool_def env_at_def accrue_def new_reserve_def
        toShares_def div_round_def Let_def empty_position_def)

lemma growing_rate:
  "accrue env_growing \<lparr> totalDeposited = 5000, totalBorrowed = 0,
     bTokenRate = 1000000000, dTokenRate = 1000000000, lastAccrual = 5, unrecoverableLoss = False \<rparr>
   = \<lparr> totalDeposited = 5000, totalBorrowed = 0,
     bTokenRate = 1500000000, dTokenRate = 1000000000, lastAccrual = 10, unrecoverableLoss = False \<rparr>"
  by (simp add: accrue_def env_growing_def)

lemma round_trip_after_deposit:
  assumes "0 < one" and "reachable (new_pool one t supported rwas cf threshold) p"
    and "deposit env u a x p = Inr (k, p1)" and "ledgerNow env' = ledgerNow env"
  shows "\<exists>r0. reserves p a = Some r0 \<and>
     (let r = accrue env r0;
          out = toUnderlying (rateOne p) RoundDown k (bTokenRate r)
      in 0 \<le> k \<and> out \<le> x
         \<and> x * rateOne p < out * rateOne p + bTokenRate r + rateOne p
         \<and> (bTokenRate r = rateOne p \<longrightarrow> k = x \<and> out = x)
         \<and> (0 < k \<longrightarrow> withdraw env' u a k p1
               = Inr (out, p\<lparr> reserves := (reserves p)(a \<mapsto> r\<lparr> totalDeposited := totalDeposited r0 + x - out \<rparr>) \<rparr>))
         \<and> (k = 0 \<longrightarrow> withdraw env' u a k p1 = Inl Validation \<and> x * rateOne p < bTokenRate r))"
proof -
  have "pool_inv (new_pool one t supported rwas cf threshold)"
    using assms(1) by (rule new_pool_inv)
  with assms(2) have i: "pool_inv p" by (rule reachable_inv)
  then have r: "rates_ok p" by (simp add: pool_inv_def)
  from assms(3) obtain r0 where x: "0 < x" and r0: "reserves p a = Some r0"
    and k: "k = toShares (rateOne p) RoundDown x (bTokenRate (accrue env r0))"
    and p1: "p1 = p\<lparr> reserves := (reserves p)(a \<mapsto> (accrue env r0)\<lparr> totalDeposited := totalDeposited (accrue env r0) + x \<rparr>),
              positions := (positions p)(u := (positions p u)\<lparr> bTokenBalance :=
                 (bTokenBalance (positions p u))(a := bTokenBalance (positions p u) a + k) \<rparr>) \<rparr>"
    by (rule deposit_Inr)
  let ?r = "accrue env r0"
  let ?r1 = "?r\<lparr> totalDeposited := totalDeposited ?r + x \<rparr>"
  note ar = accrued_rates [OF r r0, of env]
  note o = rates_ok_one [OF r]
  have again: "accrue env' ?r1 = ?r1"
    by (rule accrue_again) (simp add: accrue_last assms(4))
  define out where "out = toUnderlying (rateOne p) RoundDown k (bTokenRate ?r)"
  have k0: "0 \<le> k"
    unfolding k toShares_def using x ar(3) o by (intro round_down_nonneg) simp_all
  have le: "out \<le> x"
    unfolding out_def k using o ar(3) by (rule round_trip_le)
  have loss: "x * rateOne p < out * rateOne p + bTokenRate ?r + rateOne p"
    unfolding out_def k using o ar(3) by (rule round_trip_loss)
  have exact: "k = x \<and> out = x" if "bTokenRate ?r = rateOne p"
    unfolding out_def k that using o by (simp add: round_trip_exact)
  have res: "reserves p1 a = Some ?r1" and one: "rateOne p1 = rateOne p"
    and bal: "bTokenBalance (positions p1 u) a = bTokenBalance (positions p u) a + k"
    by (simp_all add: p1)
  have restored: "p1\<lparr> reserves := (reserves p1)(a \<mapsto> ?r1\<lparr> totalDeposited := totalDeposited ?r1 - out \<rparr>),
              positions := (positions p1)(u := (positions p1 u)\<lparr> bTokenBalance :=
                 (bTokenBalance (positions p1 u))(a := bTokenBalance (positions p1 u) a - k) \<rparr>) \<rparr>
      = p\<lparr> reserves := (reserves p)(a \<mapsto> ?r\<lparr> totalDeposited := totalDeposited r0 + x - out \<rparr>) \<rparr>"
    by (simp add: p1 accrue_totals)
  have paid: "withdraw env' u a k p1
      = Inr (out, p\<lparr> reserves := (reserves p)(a \<mapsto> ?r\<lparr> totalDeposited := totalDeposited r0 + x - out \<rparr>) \<rparr>)"
    if pos: "0 < k"
  proof -
    have "0 \<le> bTokenBalance (positions p u) a"
      using i by (rule balances_pos)
    then have b: "\<not> bTokenBalance (positions p1 u) a < k" by (simp add: bal)
    have "totalBorrowed r0 \<le> totalDeposited r0"
      using inv_facts(1) [OF i r0] .
    with le have l: "\<not> totalDeposited ?r1 - out < totalBorrowed ?r1"
      by (simp add: accrue_totals)
    from pos b l have "withdraw env' u a k p1
       = Inr (out, p1\<lparr> reserves := (reserves p1)(a \<mapsto> ?r1\<lparr> totalDeposited := totalDeposited ?r1 - out \<rparr>),
              positions := (positions p1)(u := (positions p1 u)\<lparr> bTokenBalance :=
                 (bTokenBalance (positions p1 u))(a := bTokenBalance (positions p1 u) a - k) \<rparr>) \<rparr>)"
      by (simp add: withdraw_def res one again Let_def out_def)
    then show ?thesis by (simp only: restored)
  qed
  have none: "withdraw env' u a k p1 = Inl Validation \<and> x * rateOne p < bTokenRate ?r" if z: "k = 0"
  proof -
    have "0 \<le> x * rateOne p" using x o by simp
    with ar(3) have "x * rateOne p < bTokenRate ?r"
      using k [symmetric] unfolding z by (rule no_share_small)
    then show ?thesis by (simp add: withdraw_def z)
  qed
  from r0 k0 le loss exact paid none show ?thesis
    unfolding Let_def out_def by blast
qed

text \<open>
  C6. A deposit of \<open>x > 0\<close> into a reserve succeeds and mints \<open>k\<close> bTokens, the
  shares of \<open>x\<close> rounded down. Withdrawing all of them at the same ledger time pays
  \<open>out\<close>, the underlying of \<open>k\<close> rounded down. It is never more than \<open>x\<close>, and less
  by the rounding only: \<open>x\<close> at the scale of the rates is below \<open>out\<close> at that scale
  plus the bToken rate plus one unit, and at the rate 1.0 the payout is \<open>x\<close> itself.
  Where the deposit minted any share the withdrawal succeeds and leaves the pool as it
  was before the deposit, but for the reserve, which is accrued and has kept
  \<open>x - out\<close>. A deposit too small for a share mints none, and there is nothing to
  withdraw.
\<close>

theorem deposit_withdraw_round_trip:
  assumes "0 < one" and "reachable (new_pool one t supported rwas cf threshold) p"
    and "0 < x" and "reserves p a = Some r0" and "ledgerNow env' = ledgerNow env"
  shows "\<exists>k p1. deposit env u a x p = Inr (k, p1) \<and>
     (let r = accrue env r0;
          out = toUnderlying (rateOne p) RoundDown k (bTokenRate r)
      in k = toShares (rateOne p) RoundDown x (bTokenRate r) \<and> 0 \<le> k \<and> out \<le> x
         \<and> x * rateOne p < out * rateOne p + bTokenRate r + rateOne p
         \<and> (bTokenRate r = rateOne p \<longrightarrow> k = x \<and> out = x)
         \<and> (0 < k \<longrightarrow> withdraw env' u a k p1
               = Inr (out, p\<lparr> reserves := (reserves p)(a \<mapsto> r\<lparr> totalDeposited := totalDeposited r0 + x - out \<rparr>) \<rparr>))
         \<and> (k = 0 \<longrightarrow> withdraw env' u a k p1 = Inl Validation \<and> x * rateOne p < bTokenRate r))"
proof -
  define k where "k = toShares (rateOne p) RoundDown x (bTokenRate (accrue env r0))"
  from assms(3,4) have "\<exists>p1. deposit env u a x p = Inr (k, p1)"
    by (simp add: deposit_def Let_def k_def)
  then obtain p1 where d: "deposit env u a x p = Inr (k, p1)" by blast
  from round_trip_after_deposit [OF assms(1,2) d assms(5)] assms(4)
  have "let r = accrue env r0;
          out = toUnderlying (rateOne p) RoundDown k (bTokenRate r)
      in 0 \<le> k \<and> out \<le> x
         \<and> x * rateOne p < out * rateOne p + bTokenRate r + rateOne p
         \<and> (bTokenRate r = rateOne p \<longrightarrow> k = x \<and> out = x)
         \<and> (0 < k \<longrightarrow> withdraw env' u a k p1
               = Inr (out, p\<lparr> reserves := (reserves p)(a \<mapsto> r\<lparr> totalDeposited := totalDeposited r0 + x - out \<rparr>) \<rparr>))
         \<and> (k = 0 \<longrightarrow> withdraw env' u a k p1 = Inl Validation \<and> x * rateOne p < bTokenRate r)"
    by simp
  with d k_def show ?thesis unfolding Let_def by blast
qed

theorem deposit_withdraw_round_trip_witness:
  "fst (projr (deposit env_growing ''alice'' ''USDC'' 1000 funded_pool)) = 666
   \<and> (\<exists>p2. withdraw env_growing ''alice'' ''USDC'' 666
                   (snd (projr (deposit env_growing ''alice'' ''USDC'' 1000 funded_pool))) = Inr (999, p2)
          \<and> map_option totalDeposited (reserves p2 ''USDC'') = Some 5001
          \<and> bTokenBalance (positions p2 ''alice'') ''USDC'' = 0)"
proof -
  have pos: "(0::int) < 1000000000" and x: "(0::int) < 1000" by simp_all
  have k: "toShares 1000000000 RoundDown 1000 1500000000 = 666"
    and out: "toUnderlying 1000000000 RoundDown 666 1500000000 = 999"
    by (simp_all add: toShares_def toUnderlying_def div_round_def)
  from deposit_withdraw_round_trip [OF pos funded_pool_start x funded_reserve(1) refl,
      of env_growing "''alice''"]
  obtain p1 where
    d: "deposit env_growing ''alice'' ''USDC'' 1000 funded_pool = Inr (666, p1)" and
    w: "withdraw env_growing ''alice'' ''USDC'' 666 p1
      = Inr (999, funded_pool\<lparr> reserves := (reserves funded_pool)(''USDC'' \<mapsto>
           \<lparr> totalDeposited = 5001, totalBorrowed = 0,
     bTokenRate = 1500000000, dTokenRate = 1000000000, lastAccrual = 10, unrecoverableLoss = False \<rparr>) \<rparr>)"
    by (auto simp: Let_def funded_reserve growing_rate k out)
  then show ?thesis by (simp add: funded_alice)
qed

lemma scenario4_queue: "queuedWithdrawal scenario4 ''alice'' = Some (10000, 1000 + 1814400)"
  by (simp add: scenario4_def initiate_backstop_withdrawal_def backstop_deposit_def usdc_pool_def
        new_pool_def env_at_def toShares_def div_round_def LOCK_PERIOD_def Let_def)

text \<open>
  C7. \<open>complete_backstop_withdrawal\<close> succeeds exactly when the caller has a
  pending withdrawal whose unlock time has come; the unlock time is the time of
  initiation plus 21 days. Where it succeeds it pays out the underlying of the queued
  shares, burns them and clears the queue; where it fails there is no new state.
\<close>

theorem backstop_withdrawal_time_gate:
  "((\<exists>out p'. complete_backstop_withdrawal env u p = Inr (out, p'))
      \<longleftrightarrow> (\<exists>q. queuedWithdrawal p u = Some q \<and> snd q \<le> ledgerNow env))
   \<and> (\<forall>env0 x out p1. initiate_backstop_withdrawal env0 u x p = Inr (out, p1) \<longrightarrow>
         queuedWithdrawal p1 u = Some (x, ledgerNow env0 + 21 * 86400))
   \<and> (\<forall>out p'. complete_backstop_withdrawal env u p = Inr (out, p') \<longrightarrow>
         (\<exists>q. queuedWithdrawal p u = Some q
            \<and> out = toUnderlying (rateOne p) RoundDown (fst q) (backstopRate p)
            \<and> backstopShares p' u = backstopShares p u - fst q
            \<and> backstopDeposits p' = backstopDeposits p - out
            \<and> queuedWithdrawal p' u = None))"
proof -
  have A: "(\<exists>out p'. complete_backstop_withdrawal env u p = Inr (out, p'))
      \<longleftrightarrow> (\<exists>q. queuedWithdrawal p u = Some q \<and> snd q \<le> ledgerNow env)"
    by (auto simp: complete_backstop_withdrawal_def Let_def split: option.splits)
  have B: "queuedWithdrawal p1 u = Some (x, ledgerNow env0 + 21 * 86400)"
    if "initiate_backstop_withdrawal env0 u x p = Inr (out, p1)" for env0 x out p1
    using that by (auto simp: initiate_backstop_withdrawal_def LOCK_PERIOD_def split: if_splits)
  have C: "\<exists>q. queuedWithdrawal p u = Some q
            \<and> out = toUnderlying (rateOne p) RoundDown (fst q) (backstopRate p)
            \<and> backstopShares p' u = backstopShares p u - fst q
            \<and> backstopDeposits p' = backstopDeposits p - out
            \<and> queuedWithdrawal p' u = None"
    if "complete_backstop_withdrawal env u p = Inr (out, p')" for out p'
    using that by (auto simp: complete_backstop_withdrawal_def Let_def split: option.splits if_splits)
  from A B C show ?thesis by blast
qed

theorem backstop_withdrawal_time_gate_witness:
  "(\<exists>out p'. complete_backstop_withdrawal (env_at (1000 + 1814400)) ''alice'' scenario4 = Inr (out, p'))
   \<and> complete_backstop_withdrawal (env_at (1000 + 1814400 - 1)) ''alice'' scenario4 = Inl TimeGate
   \<and> fst (projr (complete_backstop_withdrawal (env_at (1000 + 1814400)) ''alice'' scenario4)) = 10000"
proof -
  note w = backstop_withdrawal_time_gate [where env = "env_at (1000 + 1814400)" and u = "''alice''"
      and p = scenario4]
  have "\<exists>q. queuedWithdrawal scenario4 ''alice'' = Some q \<and> snd q \<le> ledgerNow (env_at (1000 + 1814400))"
    by (simp add: scenario4_queue env_at_def)
  with w have 1: "\<exists>out p'. complete_backstop_withdrawal (env_at (1000 + 1814400)) ''alice'' scenario4 = Inr (out, p')"
    by blast
  have 2: "complete_backstop_withdrawal (env_at (1000 + 1814400 - 1)) ''alice'' scenario4 = Inl TimeGate"
    by (simp add: complete_backstop_withdrawal_def scenario4_queue env_at_def)
  have rate: "rateOne scenario4 = 1000000000" "backstopRate scenario4 = 1000000000"
    by (simp_all add: scenario4_def initiate_backstop_withdrawal_def backstop_deposit_def usdc_pool_def
        new_pool_def env_at_def toShares_def div_round_def LOCK_PERIOD_def Let_def)
  have 3: "fst (projr (complete_backstop_withdrawal (env_at (1000 + 1814400)) ''alice'' scenario4)) = 10000"
    by (simp add: complete_backstop_withdrawal_def scenario4_queue env_at_def rate toUnderlying_def
          div_round_def Let_def)
  from 1 2 3 show ?thesis by blast
qed

end
